theory Spec2Isabelle
  imports Complex_Main
begin

section \<open>TileAnimation (src/maps/animations/tileanimation.js)\<close>

text \<open>
  The animation object is modelled by a record of its fields and every method by a function
  that takes the object and returns it updated. A private member \<^verbatim>\<open>name_\<close> of the source is
  written \<open>name'\<close>, since an identifier cannot end in an underscore here.

  Timestamps are integers (milliseconds since the epoch): the timeline is produced by
  \<^verbatim>\<open>parseInt\<close>. A frame (an \<^verbatim>\<open>AerisTile\<close> object) is known by its identity only.

  Collaborators whose code is outside the file (the frames, the master layer, the event
  emitter) are driven through method calls. The calls the animation makes on them are
  recorded, in order, in the field \<open>calls\<close>; what the animation asks of them
  (\<^verbatim>\<open>isLoaded()\<close>, \<^verbatim>\<open>hasMap()\<close>, \<^verbatim>\<open>Date.now()\<close>) is read from an environment record, fixed
  for the duration of one method call.
\<close>

type_synonym layer = nat

datatype error = InvalidArgumentError | TypeError

text \<open>
  The argument of \<^verbatim>\<open>goToTime\<close>, classified by the two tests the method applies:
  a Date (with the result of \<^verbatim>\<open>getTime()\<close>, which is NaN for an invalid Date),
  a numeric value, or anything else.
\<close>

datatype time_arg = DateArg "int option" | NumericArg int | OtherArg

datatype call =
    StopListening layer
  | SetOpacity layer real
  | BindAttributesTo layer "string list"
  | DestroyLayer layer
  | ResetStrategy
  | Trigger_change_time int

record env =
  now :: int
  isLoaded :: "layer \<Rightarrow> bool"
  hasMap :: bool

record tile_animation =
  timeTolerance' :: int
  currentTime' :: int
  timeLayers' :: "(int \<times> layer) list"
  times' :: "int list"
  loadTimesOnce :: nat
  layerLoadOnce :: "layer \<rightharpoonup> layer option"
  mapSetListeners :: "layer list"
  deferred :: "layer list"
  calls :: "call list"

type_synonym outcome = "error option \<times> tile_animation"

text \<open>
  \<open>loadTimesOnce\<close> counts the pending \<^verbatim>\<open>listenToOnce(this, 'load:times', ...)\<close> listeners that
  \<^verbatim>\<open>goToTime\<close> registers (they all run the same callback); \<open>layerLoadOnce\<close> holds the pending
  \<^verbatim>\<open>listenToOnce(newLayer, 'load', ...)\<close> listener of each frame, with the \<^verbatim>\<open>oldLayer\<close> its closure
  captured (at most one for a frame: \<^verbatim>\<open>stopListening(newLayer, 'load')\<close> clears the frame's
  listener before a new one is registered); \<open>mapSetListeners\<close> the
  \<^verbatim>\<open>listenTo(masterLayer_, 'map:set', ...)\<close> listeners and \<open>deferred\<close> the \<^verbatim>\<open>_.defer\<close>red preloads, by the frame they preload.
  A method that throws returns the error together with the object as the throw left it.
\<close>

subsection \<open>Helpers that are not in the file\<close>

text \<open>
  Modelled from the spec: \<^verbatim>\<open>aeris/util/findclosest\<close> is not under src/. The spec describes it
  as a nearest-timestamp lookup in a small array: the result is an element of the array at
  the least distance from the target (the earliest such element here), and undefined (\<open>None\<close>)
  for an empty array.
\<close>

fun findClosest :: "int \<Rightarrow> int list \<Rightarrow> int option" where
  "findClosest target [] = None"
| "findClosest target (x # xs) =
     (case findClosest target xs of
        None \<Rightarrow> Some x
      | Some y \<Rightarrow> if \<bar>x - target\<bar> \<le> \<bar>y - target\<bar> then Some x else Some y)"

text \<open>
  Modelled from the spec: \<^verbatim>\<open>_.isDate\<close> and \<^verbatim>\<open>_.isNumeric\<close> (\<^verbatim>\<open>aeris/util\<close>) are not under src/.
  The documentation of \<^verbatim>\<open>goToTime\<close> takes a Date or a timestamp (number); NaN is not numeric.
\<close>

fun isDate :: "time_arg \<Rightarrow> bool" where
  "isDate (DateArg _) = True"
| "isDate _ = False"

fun isNumeric :: "time_arg \<Rightarrow> bool" where
  "isNumeric (NumericArg _) = True"
| "isNumeric _ = False"

text \<open>
  Modelled from the spec: \<^verbatim>\<open>getCurrentTime\<close> is inherited from \<^verbatim>\<open>AbstractAnimation\<close>, which is
  not under src/; it reads the current time.
\<close>

definition getCurrentTime :: "tile_animation \<Rightarrow> int" where
  "getCurrentTime s = currentTime' s"

text \<open>JavaScript array reads: \<^verbatim>\<open>xs[i]\<close> is undefined out of range, \<^verbatim>\<open>indexOf\<close> is -1 when absent.\<close>

definition js_index :: "'a list \<Rightarrow> int \<Rightarrow> 'a option" where
  "js_index xs i = (if 0 \<le> i \<and> i < int (length xs) then Some (xs ! nat i) else None)"

fun indexOf :: "int list \<Rightarrow> int \<Rightarrow> int" where
  "indexOf [] x = -1"
| "indexOf (y # ys) x = (if y = x then 0 else (let i = indexOf ys x in if i < 0 then -1 else i + 1))"

subsection \<open>The timeline\<close>

definition getTimes :: "tile_animation \<Rightarrow> int list" where
  "getTimes s = times' s"

text \<open>
  The hash \<^verbatim>\<open>timeLayers_\<close> is keyed by integer timestamps (\<^verbatim>\<open>Object.<number, AerisTile>\<close>);
  \<^verbatim>\<open>parseInt\<close> reads the integer back from its key.
\<close>

definition parseInt :: "int \<Rightarrow> int" where
  "parseInt k = k"

definition getOrderedTimesFromLayers' :: "(int \<times> layer) list \<Rightarrow> int list" where
  "getOrderedTimesFromLayers' timeLayers = sort (map (\<lambda>time. parseInt time) (map fst timeLayers))"

definition setTimeLayers' :: "(int \<times> layer) list \<Rightarrow> tile_animation \<Rightarrow> tile_animation" where
  "setTimeLayers' timeLayers s =
     s\<lparr>timeLayers' := timeLayers, times' := getOrderedTimesFromLayers' timeLayers\<rparr>"

definition getClosestTime' :: "env \<Rightarrow> tile_animation \<Rightarrow> int \<Rightarrow> int option" where
  "getClosestTime' e s targetTime =
     (let isTargetInFuture = targetTime > now e;
          timesInSameTense = filter (\<lambda>time.
             let isTimeInFuture = time > now e
             in (isTimeInFuture \<and> isTargetInFuture) \<or> (\<not> isTimeInFuture \<and> \<not> isTargetInFuture))
            (times' s)
      in findClosest targetTime timesInSameTense)"

definition getLayerForTime' :: "env \<Rightarrow> tile_animation \<Rightarrow> int \<Rightarrow> layer option" where
  "getLayerForTime' e s time =
     (case getClosestTime' e s time of
        None \<Rightarrow> None
      | Some closest \<Rightarrow> map_of (timeLayers' s) closest)"

definition getCurrentLayer :: "env \<Rightarrow> tile_animation \<Rightarrow> layer option" where
  "getCurrentLayer e s = getLayerForTime' e s (currentTime' s)"

definition getTimeDeviation' :: "env \<Rightarrow> tile_animation \<Rightarrow> int \<Rightarrow> int option" where
  "getTimeDeviation' e s time =
     (case getClosestTime' e s time of
        None \<Rightarrow> None
      | Some closest \<Rightarrow> Some \<bar>time - closest\<bar>)"

subsection \<open>Transitions\<close>

definition preloadTimeLayer' :: "env \<Rightarrow> layer \<Rightarrow> tile_animation \<Rightarrow> tile_animation" where
  "preloadTimeLayer' e l s =
     (if isLoaded e l then s
      else if hasMap e then s\<lparr>deferred := deferred s @ [l]\<rparr>
      else s\<lparr>mapSetListeners := mapSetListeners s @ [l]\<rparr>)"

definition transitionNotLoadedLayer' ::
  "layer option \<Rightarrow> layer \<Rightarrow> tile_animation \<Rightarrow> tile_animation" where
  "transitionNotLoadedLayer' oldLayer newLayer s =
     (let s1 = s\<lparr>layerLoadOnce := (layerLoadOnce s)(newLayer := None)\<rparr>
      in s1\<lparr>layerLoadOnce := (layerLoadOnce s1)(newLayer \<mapsto> oldLayer)\<rparr>)"

definition syncLayerToMaster' :: "layer \<Rightarrow> tile_animation \<Rightarrow> tile_animation" where
  "syncLayerToMaster' l s =
     (let boundAttrs = [''map'', ''opacity'', ''zIndex'']
      in s\<lparr>calls := calls s @ [BindAttributesTo l boundAttrs]\<rparr>)"

definition hideCalls :: "layer \<Rightarrow> (int \<times> layer) list \<Rightarrow> call list" where
  "hideCalls newLayer timeLayers =
     concat (map (\<lambda>p. StopListening (snd p) #
                      (if snd p \<noteq> newLayer then [SetOpacity (snd p) 0] else [])) timeLayers)"

definition transition' :: "env \<Rightarrow> layer option \<Rightarrow> layer option \<Rightarrow> tile_animation \<Rightarrow> outcome" where
  "transition' e oldLayer newLayer s =
     (case newLayer of
        None \<Rightarrow> (Some TypeError, s)
      | Some nl \<Rightarrow>
          let s1 = preloadTimeLayer' e nl s in
          if \<not> isLoaded e nl then (None, transitionNotLoadedLayer' oldLayer nl s1)
          else
            let s2 = s1\<lparr>calls := calls s1 @ hideCalls nl (timeLayers' s1)\<rparr>;
                isWithinTimeTolerance =
                  (case getTimeDeviation' e s2 (currentTime' s2) of
                     None \<Rightarrow> False
                   | Some d \<Rightarrow> d < timeTolerance' s2)
            in if isWithinTimeTolerance then (None, syncLayerToMaster' nl s2)
               else (None, s2\<lparr>calls := calls s2 @ [SetOpacity nl 0]\<rparr>))"

subsection \<open>Moving in time\<close>

fun getTime :: "time_arg \<Rightarrow> time_arg" where
  "getTime (DateArg (Some t)) = NumericArg t"
| "getTime _ = OtherArg"

text \<open>\<^verbatim>\<open>this.trigger('change:time', new Date(this.currentTime_))\<close>\<close>

definition trigger_change_time :: "tile_animation \<Rightarrow> tile_animation" where
  "trigger_change_time s = s\<lparr>calls := calls s @ [Trigger_change_time (currentTime' s)]\<rparr>"

definition goToTime :: "env \<Rightarrow> time_arg \<Rightarrow> tile_animation \<Rightarrow> outcome" where
  "goToTime e arg s =
     (let haveTimesBeenLoaded = (length (getTimes s) \<noteq> 0);
          time = (if isDate arg then getTime arg else arg)
      in if \<not> isNumeric time then (Some InvalidArgumentError, s)
         else case time of
           NumericArg t \<Rightarrow>
             let currentLayer = getCurrentLayer e s;
                 nextLayer = getLayerForTime' e s t;
                 s1 = s\<lparr>currentTime' := t\<rparr>
             in if \<not> haveTimesBeenLoaded
                then (None, trigger_change_time (s1\<lparr>loadTimesOnce := Suc (loadTimesOnce s1)\<rparr>))
                else
                  (case transition' e currentLayer nextLayer s1 of
                     (Some err, s2) \<Rightarrow> (Some err, s2)
                   | (None, s2) \<Rightarrow> (None, trigger_change_time s2))
         | _ \<Rightarrow> (Some InvalidArgumentError, s))"

definition refreshCurrentLayer' :: "env \<Rightarrow> tile_animation \<Rightarrow> outcome" where
  "refreshCurrentLayer' e s = goToTime e (NumericArg (getCurrentTime s)) s"

definition getLayerIndex' :: "env \<Rightarrow> tile_animation \<Rightarrow> int" where
  "getLayerIndex' e s =
     (case getClosestTime' e s (currentTime' s) of
        None \<Rightarrow> -1
      | Some timeOfCurrentLayer \<Rightarrow> indexOf (times' s) timeOfCurrentLayer)"

definition isCurrentLayerFirst' :: "env \<Rightarrow> tile_animation \<Rightarrow> bool" where
  "isCurrentLayerFirst' e s = (getLayerIndex' e s = 0)"

definition isCurrentLayerLast' :: "env \<Rightarrow> tile_animation \<Rightarrow> bool" where
  "isCurrentLayerLast' e s = (getLayerIndex' e s = int (length (times' s)) - 1)"

definition getNextTime' :: "env \<Rightarrow> tile_animation \<Rightarrow> int option" where
  "getNextTime' e s =
     (if isCurrentLayerLast' e s then js_index (times' s) 0
      else js_index (times' s) (getLayerIndex' e s + 1))"

definition getPreviousTime' :: "env \<Rightarrow> tile_animation \<Rightarrow> int option" where
  "getPreviousTime' e s =
     (let lastTime = js_index (times' s) (int (length (times' s)) - 1)
      in if isCurrentLayerFirst' e s then lastTime
         else js_index (times' s) (getLayerIndex' e s - 1))"

text \<open>\<^verbatim>\<open>!nextTime\<close> holds of undefined and of the number 0.\<close>

definition "next" :: "env \<Rightarrow> tile_animation \<Rightarrow> outcome" where
  "next e s =
     (case getNextTime' e s of
        None \<Rightarrow> (None, s)
      | Some nextTime \<Rightarrow>
          if nextTime = 0 then (None, s) else goToTime e (NumericArg nextTime) s)"

definition previous :: "env \<Rightarrow> tile_animation \<Rightarrow> outcome" where
  "previous e s =
     (case getPreviousTime' e s of
        None \<Rightarrow> (None, s)
      | Some prevTime \<Rightarrow>
          if prevTime = 0 then (None, s) else goToTime e (NumericArg prevTime) s)"

definition setTimeTolerance :: "env \<Rightarrow> int \<Rightarrow> tile_animation \<Rightarrow> outcome" where
  "setTimeTolerance e tolerance s =
     goToTime e (NumericArg (currentTime' (s\<lparr>timeTolerance' := tolerance\<rparr>)))
       (s\<lparr>timeTolerance' := tolerance\<rparr>)"

definition destroy :: "tile_animation \<Rightarrow> tile_animation" where
  "destroy s =
     s\<lparr>calls := calls s @ map (\<lambda>p. DestroyLayer (snd p)) (timeLayers' s) @ [ResetStrategy],
       timeLayers' := [], times' := [],
       loadTimesOnce := 0, layerLoadOnce := Map.empty, mapSetListeners := []\<rparr>"

subsection \<open>Events\<close>

text \<open>
  Modelled from the spec: the event emitter (\<^verbatim>\<open>listenToOnce\<close>, \<^verbatim>\<open>trigger\<close>, \<^verbatim>\<open>aeris/events\<close>) is not
  under src/. A listener registered with \<^verbatim>\<open>listenToOnce\<close> is removed when its event fires
  and then runs; the listeners that run are those registered when the event is triggered; an
  exception thrown by a listener leaves \<^verbatim>\<open>trigger\<close>.

  \<open>trigger_load_times\<close> is \<^verbatim>\<open>this.trigger('load:times', ...)\<close>, as far as the animation's own
  listeners go (the callback of \<^verbatim>\<open>goToTime\<close>, lines 233--235), \<open>onLoadTimes\<close> the callback of
  \<^verbatim>\<open>loadAnimationLayers\<close> (lines 132--137) and \<open>onLayerLoad\<close> the callback of
  \<^verbatim>\<open>transitionNotLoadedLayer_\<close> (lines 480--484), run when the frame triggers 'load'.
\<close>

fun runLoadTimesListeners :: "env \<Rightarrow> nat \<Rightarrow> tile_animation \<Rightarrow> outcome" where
  "runLoadTimesListeners e 0 s = (None, s)"
| "runLoadTimesListeners e (Suc n) s =
     (case goToTime e (NumericArg (getCurrentTime s)) (s\<lparr>loadTimesOnce := loadTimesOnce s - 1\<rparr>) of
        (Some err, s1) \<Rightarrow> (Some err, s1)
      | (None, s1) \<Rightarrow> runLoadTimesListeners e n s1)"

definition trigger_load_times :: "env \<Rightarrow> tile_animation \<Rightarrow> outcome" where
  "trigger_load_times e s = runLoadTimesListeners e (loadTimesOnce s) s"

definition onLoadTimes :: "env \<Rightarrow> (int \<times> layer) list \<Rightarrow> tile_animation \<Rightarrow> outcome" where
  "onLoadTimes e timeLayers s =
     (case refreshCurrentLayer' e (setTimeLayers' timeLayers s) of
        (Some err, s1) \<Rightarrow> (Some err, s1)
      | (None, s1) \<Rightarrow> trigger_load_times e s1)"

definition onLayerLoad :: "env \<Rightarrow> layer \<Rightarrow> tile_animation \<Rightarrow> outcome" where
  "onLayerLoad e newLayer s =
     (case layerLoadOnce s newLayer of
        None \<Rightarrow> (None, s)
      | Some oldLayer \<Rightarrow>
          let s1 = s\<lparr>layerLoadOnce := (layerLoadOnce s)(newLayer := None)\<rparr>;
              isNewLayerStillActive = (getCurrentLayer e s1 = Some newLayer)
          in if isNewLayerStillActive then transition' e oldLayer (Some newLayer) s1
             else (None, s1))"

subsection \<open>Runs of the animation\<close>

text \<open>
  What can happen to a loaded animation short of \<^verbatim>\<open>destroy()\<close>: a call of one of its public
  methods or the 'load' event of a frame, each in the environment of its moment. A call that
  throws leaves the object as it was at the throw, and the run goes on from there.
\<close>

datatype operation =
    Next
  | Previous
  | GoToTime time_arg
  | SetTimeTolerance int
  | LayerLoad layer

fun perform :: "env \<Rightarrow> operation \<Rightarrow> tile_animation \<Rightarrow> outcome" where
  "perform e Next s = next e s"
| "perform e Previous s = previous e s"
| "perform e (GoToTime t) s = goToTime e t s"
| "perform e (SetTimeTolerance tolerance) s = setTimeTolerance e tolerance s"
| "perform e (LayerLoad l) s = onLayerLoad e l s"

fun run :: "(env \<times> operation) list \<Rightarrow> tile_animation \<Rightarrow> tile_animation" where
  "run [] s = s"
| "run ((e, operation) # rest) s = run rest (snd (perform e operation s))"

text \<open>
  The constructor (lines 25--106), as far as the fields go: the time tolerance defaults to
  two hours, the hash and the timeline start empty. The starting current time comes from
  \<^verbatim>\<open>AbstractAnimation\<close> and is a parameter here.
\<close>

definition TileAnimation :: "int option \<Rightarrow> int \<Rightarrow> tile_animation" where
  "TileAnimation opt_timeTolerance startTime =
     \<lparr>timeTolerance' = (case opt_timeTolerance of None \<Rightarrow> 1000 * 60 * 60 * 2 | Some t \<Rightarrow> t),
      currentTime' = startTime,
      timeLayers' = [],
      times' = [],
      loadTimesOnce = 0,
      layerLoadOnce = Map.empty,
      mapSetListeners = [],
      deferred = [],
      calls = []\<rparr>"

subsection \<open>Notions used to state the properties\<close>

text \<open>
  A time is in the future when it is after \<^verbatim>\<open>Date.now()\<close>, and in the past otherwise; two times
  are in the same tense when both are in the future or both are in the past.
\<close>

definition sameTense :: "env \<Rightarrow> int \<Rightarrow> int \<Rightarrow> bool" where
  "sameTense e targetTime time = ((time > now e) = (targetTime > now e))"

text \<open>
  A loaded timeline: the timeline is the one \<^verbatim>\<open>setTimeLayers_\<close> computes from the hash of
  frames.
\<close>

definition loaded :: "tile_animation \<Rightarrow> bool" where
  "loaded s = (times' s = getOrderedTimesFromLayers' (timeLayers' s))"

definition withinTolerance :: "env \<Rightarrow> tile_animation \<Rightarrow> bool" where
  "withinTolerance e s =
     (case getClosestTime' e s (currentTime' s) of
        None \<Rightarrow> False
      | Some closest \<Rightarrow> \<bar>currentTime' s - closest\<bar> < timeTolerance' s)"

text \<open>
  The times of the 'change:time' events among the calls made. Every run of \<^verbatim>\<open>goToTime\<close> that
  does not throw triggers exactly one, with the time it went to (line 241), and nothing else
  triggers any: they count the runs of \<^verbatim>\<open>goToTime\<close>.
\<close>

definition changeTimeEvents :: "call list \<Rightarrow> int list" where
  "changeTimeEvents cs =
     concat (map (\<lambda>c. case c of Trigger_change_time t \<Rightarrow> [t] | _ \<Rightarrow> []) cs)"

subsection \<open>Example animations\<close>

text \<open>
  Three frames, two before the present and one after it, all loaded; the same with the
  second frame still loading; and an animation with forecast frames only, looked at before
  and after the moment 1500.
\<close>

definition example_env :: env where
  "example_env = \<lparr>now = 1000, isLoaded = (\<lambda>l. True), hasMap = True\<rparr>"

definition loading_env :: env where
  "loading_env = \<lparr>now = 1000, isLoaded = (\<lambda>l. l \<noteq> 2), hasMap = True\<rparr>"

definition later_env :: env where
  "later_env = \<lparr>now = 1600, isLoaded = (\<lambda>l. True), hasMap = True\<rparr>"

definition example_animation :: tile_animation where
  "example_animation = setTimeLayers' [(900, 1), (950, 2), (5000, 3)] (TileAnimation None 950)"

definition forecast_animation :: tile_animation where
  "forecast_animation = setTimeLayers' [(2000, 1), (3000, 2)] (TileAnimation None 0)"

section \<open>AerisAPI.serializeToURI (tests/spec/aeris/aerisapi.js)\<close>

text \<open>
  Modelled from the spec: \<^verbatim>\<open>AerisAPI.serializeToURI\<close> (\<^verbatim>\<open>aeris/aerisapi\<close>) is not under src/; only its
  unit tests are, which say that they are borrowed from the tests of jQuery's serializer.
  The model follows the description of the serializer: every pair of the parameter object
  becomes \<open>key=value\<close>, both sides URI-encoded, the pairs joined by \<open>&\<close> and every encoded
  space written \<open>+\<close>; null and undefined are written as the empty string; the elements of an
  array under \<open>key\<close> are serialized under \<open>key[]\<close> when they are plain values and under
  \<open>key[i]\<close> when they are arrays or objects themselves; the entries of a nested object under
  \<open>key[name]\<close>; a key that already ends in \<open>[]\<close> takes the elements of its array as they are.

  A parameter value is a JSON-like value, an object being the list of its entries in
  order; numbers are integers, as in the tests. Strings are byte strings.
\<close>

datatype json =
    JNull
  | JUndefined
  | JBool bool
  | JNum int
  | JStr string
  | JArr "json list"
  | JObj "(string \<times> json) list"

text \<open>The decimal numeral of a number, and \<^verbatim>\<open>String(v)\<close> for a value.\<close>

definition digit :: "nat \<Rightarrow> char" where
  "digit d = char_of (of_char CHR ''0'' + d)"

fun showNat :: "nat \<Rightarrow> string" where
  "showNat n = (if n < 10 then [digit n] else showNat (n div 10) @ [digit (n mod 10)])"

declare showNat.simps [simp del]

definition showInt :: "int \<Rightarrow> string" where
  "showInt i = (if i < 0 then CHR ''-'' # showNat (nat (- i)) else showNat (nat i))"

definition join :: "string \<Rightarrow> string list \<Rightarrow> string" where
  "join sep xs = (case xs of [] \<Rightarrow> [] | y # ys \<Rightarrow> y @ concat (map (\<lambda>z. sep @ z) ys))"

fun toStr :: "json \<Rightarrow> string"
and elemStr :: "json \<Rightarrow> string"
and elemStrs :: "json list \<Rightarrow> string list" where
  "toStr JNull = ''null''"
| "toStr JUndefined = ''undefined''"
| "toStr (JBool b) = (if b then ''true'' else ''false'')"
| "toStr (JNum n) = showInt n"
| "toStr (JStr s) = s"
| "toStr (JArr vs) = join '','' (elemStrs vs)"
| "toStr (JObj kvs) = ''[object Object]''"
| "elemStr JNull = []"
| "elemStr JUndefined = []"
| "elemStr v = toStr v"
| "elemStrs [] = []"
| "elemStrs (v # vs) = elemStr v # elemStrs vs"

text \<open>
  \<^verbatim>\<open>encodeURIComponent\<close> keeps letters, digits and \<^verbatim>\<open>- _ . ! ~ * ' ( )\<close> and writes every
  other byte as \<open>%\<close> and two upper-case hexadecimal digits; \<^verbatim>\<open>decodeURIComponent\<close> reads them
  back and fails (\<open>None\<close>, a URIError) on a malformed escape.
\<close>

definition hexDigit :: "nat \<Rightarrow> char" where
  "hexDigit d = ''0123456789ABCDEF'' ! d"

definition unreserved :: "char \<Rightarrow> bool" where
  "unreserved c =
     (c \<in> set ''ABCDEFGHIJKLMNOPQRSTUVWXYZ'' \<or> c \<in> set ''abcdefghijklmnopqrstuvwxyz'' \<or>
      c \<in> set ''0123456789'' \<or> c \<in> set ''-_.!~*()'' \<or> c = CHR 0x27)"

definition encodeChar :: "char \<Rightarrow> string" where
  "encodeChar c =
     (if unreserved c then [c]
      else [CHR ''%'', hexDigit (of_char c div 16), hexDigit (of_char c mod 16)])"

definition encodeURIComponent :: "string \<Rightarrow> string" where
  "encodeURIComponent s = concat (map encodeChar s)"

definition hexValue :: "char \<Rightarrow> nat option" where
  "hexValue c =
     (if c \<in> set ''0123456789'' then Some (of_char c - of_char CHR ''0'')
      else if c \<in> set ''ABCDEF'' then Some (of_char c - of_char CHR ''A'' + 10)
      else if c \<in> set ''abcdef'' then Some (of_char c - of_char CHR ''a'' + 10)
      else None)"

fun decodeURIComponent :: "string \<Rightarrow> string option" where
  "decodeURIComponent [] = Some []"
| "decodeURIComponent (c # cs) =
     (if c = CHR ''%'' then
        (case cs of
           a # b # rest \<Rightarrow>
             (case (hexValue a, hexValue b, decodeURIComponent rest) of
                (Some h, Some l, Some r) \<Rightarrow> Some (char_of (16 * h + l) # r)
              | _ \<Rightarrow> None)
         | _ \<Rightarrow> None)
      else map_option ((#) c) (decodeURIComponent cs))"

text \<open>\<^verbatim>\<open>.replace(/%20/g, '+')\<close> and the test \<^verbatim>\<open>/\[\]$/\<close> on a key.\<close>

fun replace20 :: "string \<Rightarrow> string" where
  "replace20 (a # b # c # rest) =
     (if [a, b, c] = ''%20'' then CHR ''+'' # replace20 rest else a # replace20 (b # c # rest))"
| "replace20 cs = cs"

definition rbracket :: "string \<Rightarrow> bool" where
  "rbracket prefix = (length prefix \<ge> 2 \<and> drop (length prefix - 2) prefix = ''[]'')"

fun isObjectType :: "json \<Rightarrow> bool" where
  "isObjectType (JArr _) = True"
| "isObjectType (JObj _) = True"
| "isObjectType _ = False"

text \<open>
  The serializer walks the parameter object and calls \<^verbatim>\<open>add(key, value)\<close> for every plain
  value it reaches; \<open>buildParams\<close> gives the arguments of these calls, in order. \<^verbatim>\<open>add\<close> writes
  null and undefined as the empty string and encodes both sides.
\<close>

definition valueString :: "json \<Rightarrow> string" where
  "valueString v = (case v of JNull \<Rightarrow> [] | JUndefined \<Rightarrow> [] | _ \<Rightarrow> toStr v)"

definition add :: "string \<Rightarrow> json \<Rightarrow> string" where
  "add key v = encodeURIComponent key @ ''='' @ encodeURIComponent (valueString v)"

fun buildParams :: "string \<Rightarrow> json \<Rightarrow> (string \<times> json) list"
and buildArray :: "string \<Rightarrow> nat \<Rightarrow> json list \<Rightarrow> (string \<times> json) list"
and buildObject :: "string \<Rightarrow> (string \<times> json) list \<Rightarrow> (string \<times> json) list" where
  "buildParams prefix (JArr vs) = buildArray prefix 0 vs"
| "buildParams prefix (JObj entries) = buildObject prefix entries"
| "buildParams prefix v = [(prefix, v)]"
| "buildArray prefix i [] = []"
| "buildArray prefix i (v # vs) =
     (if rbracket prefix then [(prefix, v)]
      else buildParams (prefix @ ''['' @ (if isObjectType v then showNat i else []) @ '']'') v)
     @ buildArray prefix (Suc i) vs"
| "buildObject prefix [] = []"
| "buildObject prefix ((name, v) # entries) =
     buildParams (prefix @ ''['' @ name @ '']'') v @ buildObject prefix entries"

fun topLevel :: "(string \<times> json) list \<Rightarrow> (string \<times> json) list" where
  "topLevel [] = []"
| "topLevel ((prefix, v) # entries) = buildParams prefix v @ topLevel entries"

definition serializeToURI :: "(string \<times> json) list \<Rightarrow> string" where
  "serializeToURI params =
     replace20 (join ''&'' (map (\<lambda>p. add (fst p) (snd p)) (topLevel params)))"

text \<open>
  The form encoding of a string, to state what the serializer writes: a space becomes
  \<open>+\<close>, every other byte is written as \<^verbatim>\<open>encodeURIComponent\<close> writes it.
\<close>

definition formEncode :: "string \<Rightarrow> string" where
  "formEncode s = concat (map (\<lambda>c. if c = CHR 0x20 then ''+'' else encodeChar c) s)"

section \<open>GeoJsonFeatureCollection (src/api/collections/geojsonfeaturecollection.js)\<close>


text \<open>
  Reading a property: undefined when the object has no such entry or the value is not an
  object; a TypeError on null and undefined.
\<close>

definition getProperty :: "string \<Rightarrow> json \<Rightarrow> error + json" where
  "getProperty name v =
     (case v of
        JNull \<Rightarrow> Inl TypeError
      | JUndefined \<Rightarrow> Inl TypeError
      | JObj entries \<Rightarrow> (case map_of entries name of None \<Rightarrow> Inr JUndefined | Some x \<Rightarrow> Inr x)
      | _ \<Rightarrow> Inr JUndefined)"

fun truthy :: "json \<Rightarrow> bool" where
  "truthy JNull = False"
| "truthy JUndefined = False"
| "truthy (JBool b) = b"
| "truthy (JNum n) = (n \<noteq> 0)"
| "truthy (JStr s) = (s \<noteq> [])"
| "truthy _ = True"





definition isSuccessResponse' :: "json \<Rightarrow> error + bool" where
  "isSuccessResponse' res =
     (case getProperty ''error'' res of
        Inl err \<Rightarrow> Inl err
      | Inr v \<Rightarrow> Inr (\<not> truthy v))"







section \<open>Properties of the tile animation\<close>

subsection \<open>The nearest-timestamp lookup\<close>

lemma findClosest_None: "findClosest t xs = None \<longleftrightarrow> xs = []"
  by (induction xs) (auto split: option.splits)

lemma findClosest_mem: "findClosest t xs = Some c \<Longrightarrow> c \<in> set xs"
  by (induction xs arbitrary: c) (auto split: option.splits if_splits)

lemma findClosest_min: "findClosest t xs = Some c \<Longrightarrow> x \<in> set xs \<Longrightarrow> \<bar>c - t\<bar> \<le> \<bar>x - t\<bar>"
proof (induction xs arbitrary: c x)
  case Nil
  then show ?case by simp
next
  case (Cons y ys)
  show ?case
  proof (cases "findClosest t ys")
    case None
    then have "ys = []" by (simp add: findClosest_None)
    with Cons.prems None show ?thesis by simp
  next
    case (Some d)
    have d: "\<And>z. z \<in> set ys \<Longrightarrow> \<bar>d - t\<bar> \<le> \<bar>z - t\<bar>"
      using Cons.IH [OF Some] by blast
    from Cons.prems Some show ?thesis
      by (auto split: if_splits dest: d)
  qed
qed

lemma findClosest_self: "t \<in> set xs \<Longrightarrow> findClosest t xs = Some t"
proof -
  assume m: "t \<in> set xs"
  then have "xs \<noteq> []" by auto
  then obtain c where c: "findClosest t xs = Some c"
    using findClosest_None [of t xs] by (cases "findClosest t xs") auto
  from findClosest_min [OF c m] have "c = t" by simp
  with c show ?thesis by simp
qed

lemma timesInSameTense:
  "getClosestTime' e s t = findClosest t (filter (sameTense e t) (times' s))"
  unfolding getClosestTime'_def sameTense_def Let_def
  by (rule arg_cong [where f = "findClosest t"], rule filter_cong) auto

lemma sameTense_refl: "sameTense e t t"
  by (simp add: sameTense_def)

lemma closest_of_member: "t \<in> set (times' s) \<Longrightarrow> getClosestTime' e s t = Some t"
  by (simp add: timesInSameTense findClosest_self sameTense_refl)

lemma getClosestTime_cases:
  "(getClosestTime' e s t = None \<and> filter (sameTense e t) (times' s) = []) \<or>
   (\<exists>c. getClosestTime' e s t = Some c \<and> c \<in> set (times' s) \<and> sameTense e t c \<and>
      (\<forall>x \<in> set (times' s). sameTense e t x \<longrightarrow> \<bar>c - t\<bar> \<le> \<bar>x - t\<bar>))"
proof (cases "findClosest t (filter (sameTense e t) (times' s))")
  case None
  then show ?thesis by (simp add: timesInSameTense findClosest_None)
next
  case (Some c)
  from findClosest_mem [OF Some] have "c \<in> set (times' s)" "sameTense e t c" by auto
  moreover have "\<forall>x \<in> set (times' s). sameTense e t x \<longrightarrow> \<bar>c - t\<bar> \<le> \<bar>x - t\<bar>"
    using findClosest_min [OF Some] by auto
  ultimately show ?thesis using Some by (simp add: timesInSameTense)
qed

subsection \<open>The timeline and the hash of frames\<close>

lemma set_getOrderedTimes: "set (getOrderedTimesFromLayers' ls) = fst ` set ls"
  by (simp add: getOrderedTimesFromLayers'_def parseInt_def)

lemma length_getOrderedTimes: "length (getOrderedTimesFromLayers' ls) = length ls"
  by (simp add: getOrderedTimesFromLayers'_def)

lemma getOrderedTimes_Nil: "getOrderedTimesFromLayers' ls = [] \<longleftrightarrow> ls = []"
  using length_getOrderedTimes [of ls] by (metis length_0_conv)

lemma loaded_lookup:
  assumes "loaded s" and "c \<in> set (times' s)"
  shows "\<exists>l. map_of (timeLayers' s) c = Some l"
proof -
  from assms have "c \<in> fst ` set (timeLayers' s)"
    by (simp add: loaded_def set_getOrderedTimes)
  then show ?thesis
    by (cases "map_of (timeLayers' s) c") (auto simp: map_of_eq_None_iff)
qed

lemma closest_depends_on_times:
  "times' s1 = times' s \<Longrightarrow> getClosestTime' e s1 t = getClosestTime' e s t"
  by (simp add: getClosestTime'_def)

lemma layer_depends_on_timeline:
  "times' s1 = times' s \<Longrightarrow> timeLayers' s1 = timeLayers' s \<Longrightarrow>
   getLayerForTime' e s1 t = getLayerForTime' e s t"
  by (simp add: getLayerForTime'_def timesInSameTense split: option.splits)

subsection \<open>What a transition and a change of time leave alone\<close>

lemma preload_frame:
  "times' (preloadTimeLayer' e l s) = times' s"
  "timeLayers' (preloadTimeLayer' e l s) = timeLayers' s"
  "currentTime' (preloadTimeLayer' e l s) = currentTime' s"
  "timeTolerance' (preloadTimeLayer' e l s) = timeTolerance' s"
  "calls (preloadTimeLayer' e l s) = calls s"
  "layerLoadOnce (preloadTimeLayer' e l s) = layerLoadOnce s"
  "loadTimesOnce (preloadTimeLayer' e l s) = loadTimesOnce s"
  by (simp_all add: preloadTimeLayer'_def)

lemma transition_frame:
  "times' (snd (transition' e old new s)) = times' s"
  "timeLayers' (snd (transition' e old new s)) = timeLayers' s"
  "currentTime' (snd (transition' e old new s)) = currentTime' s"
  "timeTolerance' (snd (transition' e old new s)) = timeTolerance' s"
  "loadTimesOnce (snd (transition' e old new s)) = loadTimesOnce s"
  by (simp_all add: transition'_def Let_def preload_frame transitionNotLoadedLayer'_def
      syncLayerToMaster'_def split: option.splits)

lemma transition_Some_ok: "fst (transition' e old (Some l) s) = None"
  by (simp add: transition'_def Let_def)

lemma transition_loaded:
  assumes "isLoaded e newLayer"
  shows "transition' e oldLayer (Some newLayer) s =
    (None, s\<lparr>calls := calls s @ hideCalls newLayer (timeLayers' s) @
       [if withinTolerance e s then BindAttributesTo newLayer [''map'', ''opacity'', ''zIndex'']
        else SetOpacity newLayer 0]\<rparr>)"
  using assms
  by (simp add: transition'_def preloadTimeLayer'_def Let_def withinTolerance_def
      getTimeDeviation'_def timesInSameTense syncLayerToMaster'_def split: option.splits)

lemma transition_not_loaded:
  assumes "\<not> isLoaded e newLayer"
  shows "transition' e oldLayer (Some newLayer) s =
    (None, (preloadTimeLayer' e newLayer s)
       \<lparr>layerLoadOnce := (layerLoadOnce s)(newLayer \<mapsto> oldLayer)\<rparr>)"
  using assms
  by (simp add: transition'_def Let_def transitionNotLoadedLayer'_def preload_frame)

lemma trigger_change_time_frame:
  "times' (trigger_change_time s) = times' s"
  "timeLayers' (trigger_change_time s) = timeLayers' s"
  "currentTime' (trigger_change_time s) = currentTime' s"
  "timeTolerance' (trigger_change_time s) = timeTolerance' s"
  "loadTimesOnce (trigger_change_time s) = loadTimesOnce s"
  "layerLoadOnce (trigger_change_time s) = layerLoadOnce s"
  by (simp_all add: trigger_change_time_def)

lemma goToTime_unfold:
  "goToTime e (NumericArg t) s =
     (if times' s = []
      then (None, trigger_change_time (s\<lparr>currentTime' := t, loadTimesOnce := Suc (loadTimesOnce s)\<rparr>))
      else (fst (transition' e (getCurrentLayer e s) (getLayerForTime' e s t) (s\<lparr>currentTime' := t\<rparr>)),
            if fst (transition' e (getCurrentLayer e s) (getLayerForTime' e s t) (s\<lparr>currentTime' := t\<rparr>)) = None
            then trigger_change_time
              (snd (transition' e (getCurrentLayer e s) (getLayerForTime' e s t) (s\<lparr>currentTime' := t\<rparr>)))
            else snd (transition' e (getCurrentLayer e s) (getLayerForTime' e s t) (s\<lparr>currentTime' := t\<rparr>))))"
  by (simp add: goToTime_def getTimes_def Let_def split: prod.splits option.splits)

lemma goToTime_date: "goToTime e (DateArg (Some t)) s = goToTime e (NumericArg t) s"
  by (simp add: goToTime_def)

lemma goToTime_invalid:
  "goToTime e OtherArg s = (Some InvalidArgumentError, s)"
  "goToTime e (DateArg None) s = (Some InvalidArgumentError, s)"
  by (simp_all add: goToTime_def)

lemma goToTime_numeric:
  assumes "times' s \<noteq> []" and "getLayerForTime' e s t = Some l"
  shows "goToTime e (NumericArg t) s =
     (None, trigger_change_time
        (snd (transition' e (getCurrentLayer e s) (Some l) (s\<lparr>currentTime' := t\<rparr>))))"
proof -
  obtain r s2 where t: "transition' e (getCurrentLayer e s) (Some l) (s\<lparr>currentTime' := t\<rparr>) = (r, s2)"
    by (cases "transition' e (getCurrentLayer e s) (Some l) (s\<lparr>currentTime' := t\<rparr>)")
  with transition_Some_ok [of e "getCurrentLayer e s" l "s\<lparr>currentTime' := t\<rparr>"] have "r = None" by simp
  with t assms show ?thesis
    by (simp add: goToTime_def getTimes_def Let_def)
qed

lemma goToTime_numeric_frame:
  "times' (snd (goToTime e (NumericArg t) s)) = times' s"
  "timeLayers' (snd (goToTime e (NumericArg t) s)) = timeLayers' s"
  "timeTolerance' (snd (goToTime e (NumericArg t) s)) = timeTolerance' s"
  by (simp_all add: goToTime_unfold trigger_change_time_frame transition_frame)

lemma goToTime_frame:
  "times' (snd (goToTime e arg s)) = times' s"
  "timeLayers' (snd (goToTime e arg s)) = timeLayers' s"
  "timeTolerance' (snd (goToTime e arg s)) = timeTolerance' s"
proof -
  consider t where "arg = NumericArg t" | t where "arg = DateArg (Some t)"
    | "arg = OtherArg" | "arg = DateArg None"
    by (cases arg) auto
  then have "times' (snd (goToTime e arg s)) = times' s \<and>
    timeLayers' (snd (goToTime e arg s)) = timeLayers' s \<and>
    timeTolerance' (snd (goToTime e arg s)) = timeTolerance' s"
    by cases (simp_all add: goToTime_numeric_frame goToTime_date goToTime_invalid)
  then show "times' (snd (goToTime e arg s)) = times' s"
    "timeLayers' (snd (goToTime e arg s)) = timeLayers' s"
    "timeTolerance' (snd (goToTime e arg s)) = timeTolerance' s"
    by simp_all
qed

lemma goToTime_member:
  assumes "loaded s" and "t \<in> set (times' s)"
  shows "fst (goToTime e (NumericArg t) s) = None"
    and "currentTime' (snd (goToTime e (NumericArg t) s)) = t"
    and "getCurrentLayer e (snd (goToTime e (NumericArg t) s)) = map_of (timeLayers' s) t"
proof -
  from loaded_lookup [OF assms] obtain l where l: "map_of (timeLayers' s) t = Some l" ..
  with closest_of_member [OF assms(2), of e] have gl: "getLayerForTime' e s t = Some l"
    by (simp add: getLayerForTime'_def)
  from assms(2) have ne: "times' s \<noteq> []" by auto
  note g = goToTime_numeric [OF ne gl]
  show "fst (goToTime e (NumericArg t) s) = None" by (simp add: g)
  show "currentTime' (snd (goToTime e (NumericArg t) s)) = t"
    by (simp add: g trigger_change_time_frame transition_frame)
  have "getCurrentLayer e (snd (goToTime e (NumericArg t) s)) = getLayerForTime' e s t"
    unfolding getCurrentLayer_def
    by (rule trans [OF layer_depends_on_timeline [of _ s]])
      (simp_all add: g trigger_change_time_frame transition_frame)
  with gl l show "getCurrentLayer e (snd (goToTime e (NumericArg t) s)) = map_of (timeLayers' s) t"
    by simp
qed

subsection \<open>Array reads\<close>

lemma indexOf_absent: "x \<notin> set xs \<Longrightarrow> indexOf xs x = -1"
  by (induction xs) (auto simp: Let_def)

lemma indexOf_present:
  "x \<in> set xs \<Longrightarrow> 0 \<le> indexOf xs x \<and> indexOf xs x < int (length xs) \<and> xs ! nat (indexOf xs x) = x"
proof (induction xs)
  case Nil
  then show ?case by simp
next
  case (Cons y ys)
  show ?case
  proof (cases "y = x")
    case True
    then show ?thesis by simp
  next
    case False
    with Cons.prems have "x \<in> set ys" by simp
    from Cons.IH [OF this] False show ?thesis
      by (simp add: Let_def nat_add_distrib)
  qed
qed

lemma js_index_nat: "i < length xs \<Longrightarrow> js_index xs (int i) = Some (xs ! i)"
  by (simp add: js_index_def)

lemma js_index_pred: "0 < i \<Longrightarrow> i \<le> length xs \<Longrightarrow> js_index xs (int i - 1) = Some (xs ! (i - 1))"
  by (cases i) (simp_all add: js_index_def)

lemma getLayerIndex_current:
  assumes "getClosestTime' e s (currentTime' s) = Some c"
  shows "getLayerIndex' e s = int (nat (indexOf (times' s) c))"
    and "nat (indexOf (times' s) c) < length (times' s)"
proof -
  from assms getClosestTime_cases [of e s "currentTime' s"] have "c \<in> set (times' s)" by auto
  from indexOf_present [OF this] have
    i: "0 \<le> indexOf (times' s) c" "indexOf (times' s) c < int (length (times' s))" by auto
  from i assms show "getLayerIndex' e s = int (nat (indexOf (times' s) c))"
    by (simp add: getLayerIndex'_def)
  from i show "nat (indexOf (times' s) c) < length (times' s)" by simp
qed

lemma getNextTime_cyclic:
  assumes "getClosestTime' e s (currentTime' s) = Some c"
  shows "getNextTime' e s =
    Some (times' s ! ((nat (indexOf (times' s) c) + 1) mod length (times' s)))"
proof -
  define i where "i = nat (indexOf (times' s) c)"
  define n where "n = length (times' s)"
  from getLayerIndex_current [OF assms] have ii: "getLayerIndex' e s = int i" "i < n"
    by (simp_all add: i_def n_def)
  show ?thesis
  proof (cases "Suc i = n")
    case True
    then have last: "isCurrentLayerLast' e s"
      by (auto simp: isCurrentLayerLast'_def ii n_def [symmetric])
    from True have m: "(i + 1) mod n = 0" by simp
    from ii have "times' s \<noteq> []" by (auto simp: n_def)
    then have "js_index (times' s) 0 = Some (times' s ! 0)"
      by (simp add: js_index_def)
    with last m show ?thesis
      by (simp add: getNextTime'_def i_def [symmetric] n_def [symmetric])
  next
    case False
    with ii have lt: "i + 1 < n" by simp
    from False have notlast: "\<not> isCurrentLayerLast' e s"
      by (auto simp: isCurrentLayerLast'_def ii n_def [symmetric])
    from lt have m: "(i + 1) mod n = i + 1" by simp
    from lt have "js_index (times' s) (int (i + 1)) = Some (times' s ! (i + 1))"
      by (intro js_index_nat) (simp add: n_def)
    then have "js_index (times' s) (int i + 1) = Some (times' s ! (i + 1))"
      by (simp add: add.commute)
    with notlast m show ?thesis
      by (simp add: getNextTime'_def ii i_def [symmetric] n_def [symmetric])
  qed
qed

lemma getPreviousTime_cyclic:
  assumes "getClosestTime' e s (currentTime' s) = Some c"
  shows "getPreviousTime' e s =
    Some (times' s ! ((nat (indexOf (times' s) c) + length (times' s) - 1) mod length (times' s)))"
proof -
  define i where "i = nat (indexOf (times' s) c)"
  define n where "n = length (times' s)"
  from getLayerIndex_current [OF assms] have ii: "getLayerIndex' e s = int i" "i < n"
    by (simp_all add: i_def n_def)
  have main: "getPreviousTime' e s = Some (times' s ! ((i + n - 1) mod n))"
  proof (cases "i = 0")
    case True
    then have first: "isCurrentLayerFirst' e s"
      by (simp add: isCurrentLayerFirst'_def ii)
    from ii True have m: "(i + n - 1) mod n = n - 1" by simp
    from ii have "0 < n" by simp
    then have "js_index (times' s) (int n - 1) = Some (times' s ! (n - 1))"
      by (intro js_index_pred) (simp_all add: n_def)
    moreover from first have "getPreviousTime' e s = js_index (times' s) (int n - 1)"
      by (simp add: getPreviousTime'_def Let_def n_def)
    ultimately show ?thesis by (simp only: m)
  next
    case False
    then have notfirst: "\<not> isCurrentLayerFirst' e s"
      by (simp add: isCurrentLayerFirst'_def ii)
    from False obtain j where j: "i = Suc j" by (cases i) auto
    with ii have "j < n" by simp
    then have "(j + n) mod n = j" by simp
    with j have m: "(i + n - 1) mod n = i - 1" by simp
    from False ii have "js_index (times' s) (int i - 1) = Some (times' s ! (i - 1))"
      by (intro js_index_pred) (simp_all add: n_def)
    moreover from notfirst have "getPreviousTime' e s = js_index (times' s) (int i - 1)"
      by (simp add: getPreviousTime'_def Let_def ii(1))
    ultimately show ?thesis by (simp only: m)
  qed
  then show ?thesis by (simp only: i_def n_def)
qed

subsection \<open>Events and runs\<close>

lemma runLoadTimesListeners_frame:
  "times' (snd (runLoadTimesListeners e n s)) = times' s \<and>
   timeLayers' (snd (runLoadTimesListeners e n s)) = timeLayers' s"
proof (induction n arbitrary: s)
  case 0
  then show ?case by simp
next
  case (Suc n)
  obtain r s1 where g:
    "goToTime e (NumericArg (getCurrentTime s)) (s\<lparr>loadTimesOnce := loadTimesOnce s - 1\<rparr>) = (r, s1)"
    by (cases "goToTime e (NumericArg (getCurrentTime s)) (s\<lparr>loadTimesOnce := loadTimesOnce s - 1\<rparr>)")
  from goToTime_frame(1,2) [of e "NumericArg (getCurrentTime s)" "s\<lparr>loadTimesOnce := loadTimesOnce s - 1\<rparr>"] g
  have s1: "times' s1 = times' s" "timeLayers' s1 = timeLayers' s" by simp_all
  show ?case
  proof (cases r)
    case None
    with g s1 Suc.IH [of s1] show ?thesis by simp
  next
    case (Some err)
    with g s1 show ?thesis by simp
  qed
qed

lemma onLoadTimes_frame:
  "times' (snd (onLoadTimes e ls s)) = getOrderedTimesFromLayers' ls"
  "timeLayers' (snd (onLoadTimes e ls s)) = ls"
proof -
  obtain r s1 where g: "refreshCurrentLayer' e (setTimeLayers' ls s) = (r, s1)"
    by (cases "refreshCurrentLayer' e (setTimeLayers' ls s)")
  from goToTime_frame(1,2) [of e "NumericArg (getCurrentTime (setTimeLayers' ls s))" "setTimeLayers' ls s"] g
  have s1: "times' s1 = getOrderedTimesFromLayers' ls" "timeLayers' s1 = ls"
    by (simp_all add: refreshCurrentLayer'_def setTimeLayers'_def)
  have "times' (snd (onLoadTimes e ls s)) = getOrderedTimesFromLayers' ls \<and>
        timeLayers' (snd (onLoadTimes e ls s)) = ls"
  proof (cases r)
    case None
    with g s1 runLoadTimesListeners_frame [of e "loadTimesOnce s1" s1] show ?thesis
      by (simp add: onLoadTimes_def trigger_load_times_def)
  next
    case (Some err)
    with g s1 show ?thesis by (simp add: onLoadTimes_def)
  qed
  then show "times' (snd (onLoadTimes e ls s)) = getOrderedTimesFromLayers' ls"
    "timeLayers' (snd (onLoadTimes e ls s)) = ls" by simp_all
qed

lemma next_frame:
  "times' (snd (next e s)) = times' s \<and> timeLayers' (snd (next e s)) = timeLayers' s"
  by (simp add: next_def goToTime_frame split: option.splits)

lemma previous_frame:
  "times' (snd (previous e s)) = times' s \<and> timeLayers' (snd (previous e s)) = timeLayers' s"
  by (simp add: previous_def goToTime_frame split: option.splits)

lemma setTimeTolerance_frame:
  "times' (snd (setTimeTolerance e x s)) = times' s \<and>
   timeLayers' (snd (setTimeTolerance e x s)) = timeLayers' s"
  by (simp add: setTimeTolerance_def goToTime_frame)

lemma onLayerLoad_frame:
  "times' (snd (onLayerLoad e l s)) = times' s \<and>
   timeLayers' (snd (onLayerLoad e l s)) = timeLayers' s"
  by (simp add: onLayerLoad_def Let_def transition_frame split: option.splits)

lemma onLayerLoad_none: "layerLoadOnce s l = None \<Longrightarrow> onLayerLoad e l s = (None, s)"
  by (simp add: onLayerLoad_def)

lemma perform_frame:
  "times' (snd (perform e operation s)) = times' s \<and>
   timeLayers' (snd (perform e operation s)) = timeLayers' s"
  by (cases operation)
    (simp_all add: next_frame previous_frame goToTime_frame setTimeTolerance_frame onLayerLoad_frame)

lemma run_frame:
  "times' (run ops s) = times' s \<and> timeLayers' (run ops s) = timeLayers' s"
proof (induction ops arbitrary: s)
  case Nil
  then show ?case by simp
next
  case (Cons p ops)
  obtain e operation where p: "p = (e, operation)" by (cases p)
  with Cons.IH [of "snd (perform e operation s)"] perform_frame [of e operation s]
  show ?case by simp
qed

subsection \<open>Counting the runs of goToTime\<close>

lemma changeTimeEvents_append:
  "changeTimeEvents (xs @ ys) = changeTimeEvents xs @ changeTimeEvents ys"
  by (simp add: changeTimeEvents_def)

lemma changeTimeEvents_hideCalls: "changeTimeEvents (hideCalls l ls) = []"
  by (induction ls) (simp_all add: hideCalls_def changeTimeEvents_def)

lemma changeTimeEvents_transition:
  "changeTimeEvents (calls (snd (transition' e old new s))) = changeTimeEvents (calls s)"
proof (cases new)
  case None
  then show ?thesis by (simp add: transition'_def)
next
  case (Some l)
  show ?thesis
  proof (cases "isLoaded e l")
    case True
    then show ?thesis
      by (simp add: Some transition_loaded changeTimeEvents_append changeTimeEvents_hideCalls)
        (simp add: changeTimeEvents_def)
  next
    case False
    then show ?thesis
      by (simp add: Some transition_not_loaded preload_frame)
  qed
qed

lemma loadTimesOnce_irrelevant:
  "getLayerForTime' e (s\<lparr>loadTimesOnce := n\<rparr>) t = getLayerForTime' e s t"
  by (rule layer_depends_on_timeline) simp_all

lemma goToTime_run:
  assumes "times' s = [] \<or> getLayerForTime' e s t \<noteq> None"
  shows "fst (goToTime e (NumericArg t) s) = None"
    and "changeTimeEvents (calls (snd (goToTime e (NumericArg t) s))) = changeTimeEvents (calls s) @ [t]"
    and "currentTime' (snd (goToTime e (NumericArg t) s)) = t"
    and "loadTimesOnce (snd (goToTime e (NumericArg t) s)) =
      (if times' s = [] then Suc (loadTimesOnce s) else loadTimesOnce s)"
proof -
  show "fst (goToTime e (NumericArg t) s) = None"
  proof (cases "times' s = []")
    case True
    then show ?thesis by (simp add: goToTime_unfold)
  next
    case False
    with assms obtain l where "getLayerForTime' e s t = Some l" by auto
    with False show ?thesis by (simp add: goToTime_unfold transition_Some_ok)
  qed
  then show "changeTimeEvents (calls (snd (goToTime e (NumericArg t) s))) = changeTimeEvents (calls s) @ [t]"
    by (simp add: goToTime_unfold trigger_change_time_def changeTimeEvents_append
        changeTimeEvents_transition transition_frame split: if_splits)
      (simp_all add: changeTimeEvents_def)
  show "currentTime' (snd (goToTime e (NumericArg t) s)) = t"
    by (simp add: goToTime_unfold trigger_change_time_frame transition_frame)
  show "loadTimesOnce (snd (goToTime e (NumericArg t) s)) =
      (if times' s = [] then Suc (loadTimesOnce s) else loadTimesOnce s)"
    by (simp add: goToTime_unfold trigger_change_time_frame transition_frame)
qed

lemma runLoadTimesListeners_runs:
  assumes "times' s = [] \<or> getLayerForTime' e s (currentTime' s) \<noteq> None"
    and "n \<le> loadTimesOnce s"
  shows "fst (runLoadTimesListeners e n s) = None \<and>
    changeTimeEvents (calls (snd (runLoadTimesListeners e n s))) =
      changeTimeEvents (calls s) @ replicate n (currentTime' s) \<and>
    currentTime' (snd (runLoadTimesListeners e n s)) = currentTime' s \<and>
    loadTimesOnce (snd (runLoadTimesListeners e n s)) =
      (if times' s = [] then loadTimesOnce s else loadTimesOnce s - n)"
  using assms
proof (induction n arbitrary: s)
  case 0
  then show ?case by simp
next
  case (Suc n)
  define s0 where "s0 = s\<lparr>loadTimesOnce := loadTimesOnce s - 1\<rparr>"
  define c where "c = currentTime' s"
  have ok0: "times' s0 = [] \<or> getLayerForTime' e s0 c \<noteq> None"
    using Suc.prems(1) by (simp add: s0_def c_def loadTimesOnce_irrelevant)
  note g = goToTime_run [OF ok0]
  define s1 where "s1 = snd (goToTime e (NumericArg c) s0)"
  have r: "goToTime e (NumericArg c) s0 = (None, s1)"
    using g(1) by (simp add: s1_def prod_eq_iff)
  have t1: "times' s1 = times' s" "timeLayers' s1 = timeLayers' s"
    by (simp_all add: s1_def goToTime_frame s0_def)
  have c1: "currentTime' s1 = c" using g(3) by (simp add: s1_def)
  have l1: "loadTimesOnce s1 = (if times' s = [] then loadTimesOnce s else loadTimesOnce s - 1)"
    using g(4) Suc.prems(2) by (simp add: s1_def s0_def)
  have ev1: "changeTimeEvents (calls s1) = changeTimeEvents (calls s) @ [c]"
    using g(2) by (simp add: s1_def s0_def)
  have "getLayerForTime' e s1 c = getLayerForTime' e s c"
    by (rule layer_depends_on_timeline) (simp_all add: t1)
  with Suc.prems(1) have ok1: "times' s1 = [] \<or> getLayerForTime' e s1 (currentTime' s1) \<noteq> None"
    by (simp add: t1 c1 c_def)
  have n1: "n \<le> loadTimesOnce s1" using l1 Suc.prems(2) by (auto split: if_splits)
  from Suc.IH [OF ok1 n1] have ih:
    "fst (runLoadTimesListeners e n s1) = None"
    "changeTimeEvents (calls (snd (runLoadTimesListeners e n s1))) =
      changeTimeEvents (calls s1) @ replicate n (currentTime' s1)"
    "currentTime' (snd (runLoadTimesListeners e n s1)) = currentTime' s1"
    "loadTimesOnce (snd (runLoadTimesListeners e n s1)) =
      (if times' s1 = [] then loadTimesOnce s1 else loadTimesOnce s1 - n)"
    by simp_all
  have step: "runLoadTimesListeners e (Suc n) s = runLoadTimesListeners e n s1"
    using r by (simp add: getCurrentTime_def s0_def c_def)
  show ?case
    unfolding step using ih
    by (simp add: ev1 c1 l1 t1 c_def replicate_append_same)
qed

lemma trigger_load_times_runs:
  assumes "getTimes s2 = [] \<or> getCurrentLayer e1 s2 \<noteq> None"
  shows "fst (trigger_load_times e1 s2) = None \<and>
    changeTimeEvents (calls (snd (trigger_load_times e1 s2))) =
      changeTimeEvents (calls s2) @ replicate (loadTimesOnce s2) (getCurrentTime s2) \<and>
    getCurrentTime (snd (trigger_load_times e1 s2)) = getCurrentTime s2 \<and>
    loadTimesOnce (snd (trigger_load_times e1 s2)) =
      (if getTimes s2 = [] then loadTimesOnce s2 else 0)"
proof -
  from assms have ok: "times' s2 = [] \<or> getLayerForTime' e1 s2 (currentTime' s2) \<noteq> None"
    by (simp add: getTimes_def getCurrentLayer_def)
  from runLoadTimesListeners_runs [OF ok order_refl] show ?thesis
    by (simp add: trigger_load_times_def getCurrentTime_def getTimes_def)
qed

lemma onLoadTimes_runs:
  assumes "timeLayers = [] \<or>
      getLayerForTime' e1 (setTimeLayers' timeLayers s2) (getCurrentTime s2) \<noteq> None"
  shows "fst (onLoadTimes e1 timeLayers s2) = None \<and>
    changeTimeEvents (calls (snd (onLoadTimes e1 timeLayers s2))) =
      changeTimeEvents (calls s2) @
        replicate (if timeLayers = [] then loadTimesOnce s2 + 2 else loadTimesOnce s2 + 1)
          (getCurrentTime s2) \<and>
    getCurrentTime (snd (onLoadTimes e1 timeLayers s2)) = getCurrentTime s2 \<and>
    loadTimesOnce (snd (onLoadTimes e1 timeLayers s2)) =
      (if timeLayers = [] then Suc (loadTimesOnce s2) else 0)"
proof -
  define s3 where "s3 = setTimeLayers' timeLayers s2"
  define c where "c = currentTime' s2"
  have s3: "times' s3 = getOrderedTimesFromLayers' timeLayers" "currentTime' s3 = c"
    "loadTimesOnce s3 = loadTimesOnce s2" "calls s3 = calls s2" "timeLayers' s3 = timeLayers"
    by (simp_all add: s3_def c_def setTimeLayers'_def)
  have e3: "times' s3 = [] \<longleftrightarrow> timeLayers = []"
    by (simp add: s3 getOrderedTimes_Nil)
  from assms e3 have ok3: "times' s3 = [] \<or> getLayerForTime' e1 s3 c \<noteq> None"
    by (auto simp: s3_def c_def getCurrentTime_def)
  note g = goToTime_run [OF ok3]
  define s4 where "s4 = snd (goToTime e1 (NumericArg c) s3)"
  have r: "refreshCurrentLayer' e1 s3 = (None, s4)"
    using g(1) by (simp add: refreshCurrentLayer'_def getCurrentTime_def s3 s4_def prod_eq_iff)
  have t4: "times' s4 = times' s3" "timeLayers' s4 = timeLayers' s3"
    by (simp_all add: s4_def goToTime_frame)
  have c4: "currentTime' s4 = c" using g(3) by (simp add: s4_def)
  have l4: "loadTimesOnce s4 = (if timeLayers = [] then Suc (loadTimesOnce s2) else loadTimesOnce s2)"
    using g(4) e3 s3(3) by (simp add: s4_def)
  have ev4: "changeTimeEvents (calls s4) = changeTimeEvents (calls s2) @ [c]"
    using g(2) s3(4) by (simp add: s4_def)
  have "getLayerForTime' e1 s4 c = getLayerForTime' e1 s3 c"
    by (rule layer_depends_on_timeline) (simp_all add: t4)
  with ok3 have ok4: "getTimes s4 = [] \<or> getCurrentLayer e1 s4 \<noteq> None"
    by (simp add: getTimes_def getCurrentLayer_def t4 c4)
  have o: "onLoadTimes e1 timeLayers s2 = trigger_load_times e1 s4"
    using r by (simp add: onLoadTimes_def s3_def [symmetric])
  from trigger_load_times_runs [OF ok4] show ?thesis
    unfolding o
    by (simp add: ev4 c4 l4 getCurrentTime_def getTimes_def t4 e3 c_def [symmetric]
        replicate_append_same [symmetric])
qed

subsection \<open>The calls that hide the frames\<close>




lemma hideCalls_stop: "l \<in> snd ` set ls \<Longrightarrow> StopListening l \<in> set (hideCalls newLayer ls)"
  by (auto simp: hideCalls_def)

section \<open>The claims about the tile animation\<close>

subsection \<open>C1: the frame nearest to a time\<close>

text \<open>
  C1, as the specification states it: for every numeric (or Date) time \<open>t\<close> and every non-empty
  loaded timeline, \<^verbatim>\<open>getClosestTime_(t)\<close> returns the timestamp of the timeline that minimises
  the distance to \<open>t\<close>. The code looks only at the timestamps in the same tense as \<open>t\<close>
  (lines 404--411), so a nearer timestamp on the other side of the present is passed over:
  at the present 1000, with frames at 900, 950 and 5000, the time 1100 is given the frame
  at 5000, although the frame at 950 is nearer.
\<close>

theorem closest_time_not_nearest_overall:
  "getClosestTime' example_env example_animation 1100 = Some 5000 \<and>
   getLayerForTime' example_env example_animation 1100 = Some 3 \<and>
   950 \<in> set (getTimes example_animation) \<and> \<bar>950 - 1100\<bar> < \<bar>5000 - (1100::int)\<bar>"
  by code_simp

text \<open>
  C1, amended: for a numeric or Date time \<open>t\<close> and a loaded timeline that has a timestamp in
  the same tense as \<open>t\<close>, \<^verbatim>\<open>getClosestTime_(t)\<close> returns a timestamp of the timeline, in the same
  tense as \<open>t\<close>, that minimises the distance to \<open>t\<close> among the timestamps of that tense;
  \<^verbatim>\<open>getLayerForTime_(t)\<close> returns the frame stored under that timestamp; and \<^verbatim>\<open>goToTime(t)\<close> records
  \<open>t\<close> as the current time, transitions to that frame and triggers 'change:time', without
  throwing.
\<close>

theorem goToTime_nearest_in_same_tense:
  assumes "loaded s"
    and "arg = NumericArg t \<or> arg = DateArg (Some t)"
    and "\<exists>x \<in> set (getTimes s). sameTense e t x"
  shows "\<exists>c l. getClosestTime' e s t = Some c \<and> c \<in> set (getTimes s) \<and> sameTense e t c \<and>
           (\<forall>x \<in> set (getTimes s). sameTense e t x \<longrightarrow> \<bar>c - t\<bar> \<le> \<bar>x - t\<bar>) \<and>
           map_of (timeLayers' s) c = Some l \<and>
           getLayerForTime' e s t = Some l \<and>
           goToTime e arg s =
             (None, trigger_change_time
                (snd (transition' e (getCurrentLayer e s) (Some l) (s\<lparr>currentTime' := t\<rparr>))))"
proof -
  from assms(3) have ne: "filter (sameTense e t) (times' s) \<noteq> []"
    by (auto simp: getTimes_def filter_empty_conv)
  with getClosestTime_cases [of e s t] obtain c where
    c: "getClosestTime' e s t = Some c" "c \<in> set (times' s)" "sameTense e t c"
       "\<forall>x \<in> set (times' s). sameTense e t x \<longrightarrow> \<bar>c - t\<bar> \<le> \<bar>x - t\<bar>"
    by auto
  from loaded_lookup [OF assms(1) c(2)] obtain l where l: "map_of (timeLayers' s) c = Some l" ..
  with c(1) have gl: "getLayerForTime' e s t = Some l"
    by (simp add: getLayerForTime'_def)
  from c(2) have "times' s \<noteq> []" by auto
  from goToTime_numeric [OF this gl] assms(2)
  have "goToTime e arg s =
     (None, trigger_change_time
        (snd (transition' e (getCurrentLayer e s) (Some l) (s\<lparr>currentTime' := t\<rparr>))))"
    by (auto simp: goToTime_date)
  with c l gl show ?thesis by (auto simp: getTimes_def)
qed

theorem goToTime_nearest_in_same_tense_witness:
  "loaded example_animation \<and>
   getClosestTime' example_env example_animation 1100 = Some 5000 \<and>
   getLayerForTime' example_env example_animation 1100 = Some 3 \<and>
   fst (goToTime example_env (NumericArg 1100) example_animation) = None \<and>
   getCurrentTime (snd (goToTime example_env (NumericArg 1100) example_animation)) = 1100"
proof -
  have h1: "loaded example_animation" by code_simp
  have h2: "NumericArg 1100 = NumericArg 1100 \<or> NumericArg 1100 = DateArg (Some 1100)"
    by simp
  have h3: "\<exists>x \<in> set (getTimes example_animation). sameTense example_env 1100 x" by code_simp
  from goToTime_nearest_in_same_tense [OF h1 h2 h3] obtain c l where
    c: "getClosestTime' example_env example_animation 1100 = Some c"
      "getLayerForTime' example_env example_animation 1100 = Some l"
      "goToTime example_env (NumericArg 1100) example_animation =
        (None, trigger_change_time
           (snd (transition' example_env (getCurrentLayer example_env example_animation) (Some l)
              (example_animation\<lparr>currentTime' := 1100\<rparr>))))"
    by blast
  have e: "getClosestTime' example_env example_animation 1100 = Some 5000"
    "getLayerForTime' example_env example_animation 1100 = Some 3" by code_simp+
  from c h1 e show ?thesis
    by (simp add: getCurrentTime_def trigger_change_time_frame transition_frame)
qed

subsection \<open>C2: the ordered timeline\<close>

text \<open>
  C2: after the frames are set on 'load:times', \<^verbatim>\<open>getTimes()\<close> is sorted in ascending order and
  holds exactly the integer timestamp keys of the hash of frames (the same timestamps, as
  many as the hash has keys); every run of \<^verbatim>\<open>next\<close>, \<^verbatim>\<open>previous\<close>, \<^verbatim>\<open>goToTime\<close>, \<^verbatim>\<open>setTimeTolerance\<close> and
  frame 'load' events after it, whether the calls throw or not, leaves the timeline and the
  hash as they are; \<^verbatim>\<open>destroy()\<close> empties the timeline.
\<close>

theorem timeline_ordered_and_preserved:
  "sorted (getTimes (snd (onLoadTimes e timeLayers s))) \<and>
   set (getTimes (snd (onLoadTimes e timeLayers s))) = fst ` set timeLayers \<and>
   length (getTimes (snd (onLoadTimes e timeLayers s))) = length timeLayers \<and>
   getTimes (run ops (snd (onLoadTimes e timeLayers s))) = getTimes (snd (onLoadTimes e timeLayers s)) \<and>
   timeLayers' (run ops (snd (onLoadTimes e timeLayers s))) = timeLayers \<and>
   getTimes (destroy (run ops (snd (onLoadTimes e timeLayers s)))) = []"
  by (simp add: getTimes_def run_frame onLoadTimes_frame getOrderedTimesFromLayers'_def
      parseInt_def destroy_def)

theorem timeline_ordered_and_preserved_witness:
  "getTimes (run [(example_env, Next), (later_env, GoToTime OtherArg), (later_env, Previous)]
     (snd (onLoadTimes example_env [(950, 2), (5000, 3), (900, 1)] (TileAnimation None 950))))
   = [900, 950, 5000]"
proof -
  have "getTimes (snd (onLoadTimes example_env [(950, 2), (5000, 3), (900, 1)] (TileAnimation None 950)))
    = [900, 950, 5000]"
    by code_simp
  with timeline_ordered_and_preserved [of example_env "[(950, 2), (5000, 3), (900, 1)]" "TileAnimation None 950"
      "[(example_env, Next), (later_env, GoToTime OtherArg), (later_env, Previous)]"]
  show ?thesis by simp
qed

subsection \<open>C3: cycling through the frames\<close>

text \<open>
  What the code does when there is a current layer: with the current layer at index \<open>i\<close> of
  the \<open>n\<close> timestamps, \<^verbatim>\<open>next()\<close> goes to the timestamp at index \<open>(i + 1) mod n\<close> and \<^verbatim>\<open>previous()\<close>
  to the one at index \<open>(i + n - 1) mod n\<close>, unless that timestamp is 0.
\<close>

lemma next_cycles:
  assumes "loaded s"
    and "getClosestTime' e s (getCurrentTime s) = Some c"
    and "getTimes s ! ((nat (indexOf (getTimes s) c) + 1) mod length (getTimes s)) \<noteq> 0"
  shows "fst (next e s) = None \<and>
     currentTime' (snd (next e s)) =
       getTimes s ! ((nat (indexOf (getTimes s) c) + 1) mod length (getTimes s)) \<and>
     getCurrentLayer e (snd (next e s)) =
       map_of (timeLayers' s) (getTimes s ! ((nat (indexOf (getTimes s) c) + 1) mod length (getTimes s)))"
proof -
  from assms(2) have c: "getClosestTime' e s (currentTime' s) = Some c"
    by (simp add: getCurrentTime_def)
  with getClosestTime_cases [of e s "currentTime' s"] have "c \<in> set (times' s)" by auto
  then have len: "0 < length (times' s)" by (cases "times' s") auto
  define nt where "nt = times' s ! ((nat (indexOf (times' s) c) + 1) mod length (times' s))"
  from len have ntm: "nt \<in> set (times' s)" by (simp add: nt_def)
  from assms(3) have nz: "nt \<noteq> 0" by (simp add: getTimes_def nt_def)
  have n: "next e s = goToTime e (NumericArg nt) s"
    using getNextTime_cyclic [OF c] nz by (simp add: next_def nt_def)
  from goToTime_member [OF assms(1) ntm, of e]
  have "fst (goToTime e (NumericArg nt) s) = None \<and>
     currentTime' (snd (goToTime e (NumericArg nt) s)) = nt \<and>
     getCurrentLayer e (snd (goToTime e (NumericArg nt) s)) = map_of (timeLayers' s) nt"
    by simp
  then show ?thesis
    unfolding n getTimes_def nt_def .
qed

lemma previous_cycles:
  assumes "loaded s"
    and "getClosestTime' e s (getCurrentTime s) = Some c"
    and "getTimes s ! ((nat (indexOf (getTimes s) c) + length (getTimes s) - 1) mod length (getTimes s)) \<noteq> 0"
  shows "fst (previous e s) = None \<and>
     currentTime' (snd (previous e s)) =
       getTimes s ! ((nat (indexOf (getTimes s) c) + length (getTimes s) - 1) mod length (getTimes s)) \<and>
     getCurrentLayer e (snd (previous e s)) =
       map_of (timeLayers' s)
         (getTimes s ! ((nat (indexOf (getTimes s) c) + length (getTimes s) - 1) mod length (getTimes s)))"
proof -
  from assms(2) have c: "getClosestTime' e s (currentTime' s) = Some c"
    by (simp add: getCurrentTime_def)
  with getClosestTime_cases [of e s "currentTime' s"] have "c \<in> set (times' s)" by auto
  then have len: "0 < length (times' s)" by (cases "times' s") auto
  define pt where
    "pt = times' s ! ((nat (indexOf (times' s) c) + length (times' s) - 1) mod length (times' s))"
  from len have ptm: "pt \<in> set (times' s)" by (simp add: pt_def)
  from assms(3) have nz: "pt \<noteq> 0" by (simp add: getTimes_def pt_def)
  have p: "previous e s = goToTime e (NumericArg pt) s"
    using getPreviousTime_cyclic [OF c] nz by (simp add: previous_def pt_def)
  from goToTime_member [OF assms(1) ptm, of e]
  have "fst (goToTime e (NumericArg pt) s) = None \<and>
     currentTime' (snd (goToTime e (NumericArg pt) s)) = pt \<and>
     getCurrentLayer e (snd (goToTime e (NumericArg pt) s)) = map_of (timeLayers' s) pt"
    by simp
  then show ?thesis
    unfolding p getTimes_def pt_def .
qed

text \<open>
  C3: for every non-empty loaded timeline the frames are cycled, \<^verbatim>\<open>next()\<close> to the next
  timestamp or back to the earliest, \<^verbatim>\<open>previous()\<close> to the preceding one or on to the latest.
  The code does not do so when no timestamp is in the tense of the current time. With
  forecast frames at 2000 and 3000, \<^verbatim>\<open>goToTime(1500)\<close> at the present 1000 succeeds; at the
  present 1600 the current time 1500 is in the past and no frame is, \<^verbatim>\<open>getLayerIndex_\<close> is -1,
  \<^verbatim>\<open>getPreviousTime_\<close> reads \<^verbatim>\<open>times_[-2]\<close>, and \<^verbatim>\<open>previous()\<close> returns without a call and with
  the current time still 1500, although its documentation has it go round to the last
  layer; \<^verbatim>\<open>next()\<close> in the same state goes to 2000.
\<close>

theorem previous_stalls_without_current_layer:
  "fst (goToTime example_env (NumericArg 1500) forecast_animation) = None \<and>
   getTimes (snd (goToTime example_env (NumericArg 1500) forecast_animation)) = [2000, 3000] \<and>
   getCurrentTime (snd (goToTime example_env (NumericArg 1500) forecast_animation)) = 1500 \<and>
   getLayerIndex' later_env (snd (goToTime example_env (NumericArg 1500) forecast_animation)) = -1 \<and>
   getPreviousTime' later_env (snd (goToTime example_env (NumericArg 1500) forecast_animation)) = None \<and>
   getCurrentTime (snd (previous later_env (snd (goToTime example_env (NumericArg 1500) forecast_animation))))
     = 1500 \<and>
   calls (snd (previous later_env (snd (goToTime example_env (NumericArg 1500) forecast_animation))))
     = calls (snd (goToTime example_env (NumericArg 1500) forecast_animation)) \<and>
   getCurrentTime (snd (next later_env (snd (goToTime example_env (NumericArg 1500) forecast_animation))))
     = 2000"
  by code_simp

text \<open>
  The guard \<^verbatim>\<open>if (!nextTime) return\<close> also holds of the timestamp 0: from the last frame of a
  timeline that starts at 0, \<^verbatim>\<open>next()\<close> does not go back to it.
\<close>

lemma next_stalls_on_timestamp_zero:
  "getTimes (setTimeLayers' [(0, 1), (500, 2)] (TileAnimation None 500)) = [0, 500] \<and>
   getNextTime' example_env (setTimeLayers' [(0, 1), (500, 2)] (TileAnimation None 500)) = Some 0 \<and>
   getCurrentTime (snd (next example_env (setTimeLayers' [(0, 1), (500, 2)] (TileAnimation None 500))))
     = 500"
  by code_simp

subsection \<open>C4: transition to a frame that is not loaded\<close>

text \<open>
  C4: a transition to a frame that is not loaded returns without any call on a frame (the
  frame is not displayed) and leaves one listener on that frame's 'load' event, in place of
  any earlier one. When the frame triggers 'load' while that listener is registered, the
  listener is removed; the transition is run again if the frame is still the current layer,
  and nothing else happens if it is not. Once the event has been handled (unless the frame
  was still current and still not loaded, when the transition registers the listener
  again), a further 'load' event of the frame does nothing.
\<close>

theorem transition_deferred_until_load:
  assumes "\<not> isLoaded e newLayer"
    and "layerLoadOnce s2 newLayer = layerLoadOnce (snd (transition' e oldLayer (Some newLayer) s)) newLayer"
  shows "fst (transition' e oldLayer (Some newLayer) s) = None \<and>
    calls (snd (transition' e oldLayer (Some newLayer) s)) = calls s \<and>
    layerLoadOnce (snd (transition' e oldLayer (Some newLayer) s)) =
      (layerLoadOnce s)(newLayer \<mapsto> oldLayer) \<and>
    onLayerLoad e2 newLayer s2 =
      (if getCurrentLayer e2 s2 = Some newLayer
       then transition' e2 oldLayer (Some newLayer) (s2\<lparr>layerLoadOnce := (layerLoadOnce s2)(newLayer := None)\<rparr>)
       else (None, s2\<lparr>layerLoadOnce := (layerLoadOnce s2)(newLayer := None)\<rparr>)) \<and>
    (getCurrentLayer e2 s2 = Some newLayer \<and> \<not> isLoaded e2 newLayer \<or>
       layerLoadOnce (snd (onLayerLoad e2 newLayer s2)) newLayer = None \<and>
       onLayerLoad e3 newLayer (snd (onLayerLoad e2 newLayer s2)) = (None, snd (onLayerLoad e2 newLayer s2)))"
proof -
  note t = transition_not_loaded [OF assms(1), of oldLayer s]
  have l2: "layerLoadOnce s2 newLayer = Some oldLayer"
    using assms(2) by (simp add: t)
  define s3 where "s3 = s2\<lparr>layerLoadOnce := (layerLoadOnce s2)(newLayer := None)\<rparr>"
  have gc: "getCurrentLayer e2 s3 = getCurrentLayer e2 s2"
    by (simp add: s3_def getCurrentLayer_def getLayerForTime'_def timesInSameTense
        split: option.splits)
  have o: "onLayerLoad e2 newLayer s2 =
      (if getCurrentLayer e2 s2 = Some newLayer
       then transition' e2 oldLayer (Some newLayer) s3 else (None, s3))"
    using l2 gc by (simp add: onLayerLoad_def Let_def s3_def [symmetric])
  have once: "getCurrentLayer e2 s2 = Some newLayer \<and> \<not> isLoaded e2 newLayer \<or>
       layerLoadOnce (snd (onLayerLoad e2 newLayer s2)) newLayer = None \<and>
       onLayerLoad e3 newLayer (snd (onLayerLoad e2 newLayer s2)) = (None, snd (onLayerLoad e2 newLayer s2))"
  proof (cases "getCurrentLayer e2 s2 = Some newLayer")
    case False
    then have r: "onLayerLoad e2 newLayer s2 = (None, s3)" by (simp add: o)
    have "layerLoadOnce s3 newLayer = None" by (simp add: s3_def)
    with onLayerLoad_none [OF this, of e3] show ?thesis by (simp add: r)
  next
    case True
    show ?thesis
    proof (cases "isLoaded e2 newLayer")
      case False
      with True show ?thesis by simp
    next
      case l: True
      from True have r: "onLayerLoad e2 newLayer s2 = transition' e2 oldLayer (Some newLayer) s3"
        by (simp add: o)
      have "layerLoadOnce (snd (transition' e2 oldLayer (Some newLayer) s3)) newLayer = None"
        by (simp add: transition_loaded [OF l] s3_def)
      with onLayerLoad_none [OF this, of e3] show ?thesis by (simp add: r)
    qed
  qed
  from t o once show ?thesis
    by (simp add: preload_frame s3_def)
qed

theorem transition_deferred_until_load_witness:
  "\<not> isLoaded loading_env 2 \<and>
   calls (snd (transition' loading_env (Some 1) (Some 2) example_animation)) = calls example_animation \<and>
   layerLoadOnce (snd (transition' loading_env (Some 1) (Some 2) example_animation)) 2 = Some (Some 1) \<and>
   onLayerLoad example_env 2 (snd (transition' loading_env (Some 1) (Some 2) example_animation)) =
     transition' example_env (Some 1) (Some 2)
       ((snd (transition' loading_env (Some 1) (Some 2) example_animation))
          \<lparr>layerLoadOnce := (layerLoadOnce (snd (transition' loading_env (Some 1) (Some 2) example_animation)))(2 := None)\<rparr>) \<and>
   calls (snd (onLayerLoad example_env 2 (snd (transition' loading_env (Some 1) (Some 2) example_animation)))) =
     [StopListening 1, SetOpacity 1 0, StopListening 2, StopListening 3, SetOpacity 3 0,
      BindAttributesTo 2 [''map'', ''opacity'', ''zIndex'']]"
proof -
  have h1: "\<not> isLoaded loading_env 2" by code_simp
  have h2: "layerLoadOnce (snd (transition' loading_env (Some 1) (Some 2) example_animation)) 2 =
    layerLoadOnce (snd (transition' loading_env (Some 1) (Some 2) example_animation)) 2" by (rule refl)
  have cur: "getCurrentLayer example_env (snd (transition' loading_env (Some 1) (Some 2) example_animation)) = Some 2"
    by code_simp
  have e: "calls (snd (onLayerLoad example_env 2 (snd (transition' loading_env (Some 1) (Some 2) example_animation)))) =
     [StopListening 1, SetOpacity 1 0, StopListening 2, StopListening 3, SetOpacity 3 0,
      BindAttributesTo 2 [''map'', ''opacity'', ''zIndex'']]"
    by code_simp
  from transition_deferred_until_load [OF h1 h2, of example_env example_env] cur h1 e show ?thesis
    by simp
qed

subsection \<open>C5: going to a time before the times are loaded\<close>

text \<open>
  C5, as the specification states it: after a call \<^verbatim>\<open>goToTime(t)\<close> while the timeline is empty,
  \<^verbatim>\<open>goToTime\<close> is re-invoked exactly once, with the time recorded, after 'load:times' fires.
  Every such call registers a listener of its own, and a listener goes to the current time
  of the moment it runs: after \<^verbatim>\<open>goToTime(940)\<close> and \<^verbatim>\<open>goToTime(945)\<close> two listeners wait, and
  when the frames arrive \<^verbatim>\<open>goToTime\<close> runs three times (the refresh of the loader callback and
  the two listeners), each time with 945 and never with 940.
\<close>

theorem goToTime_rerun_for_every_waiting_call:
  "getTimes (TileAnimation None 0) = [] \<and>
   loadTimesOnce (snd (goToTime example_env (NumericArg 945)
     (snd (goToTime example_env (NumericArg 940) (TileAnimation None 0))))) = 2 \<and>
   fst (onLoadTimes example_env [(900, 1), (950, 2)]
     (snd (goToTime example_env (NumericArg 945)
       (snd (goToTime example_env (NumericArg 940) (TileAnimation None 0)))))) = None \<and>
   changeTimeEvents (calls (snd (onLoadTimes example_env [(900, 1), (950, 2)]
     (snd (goToTime example_env (NumericArg 945)
       (snd (goToTime example_env (NumericArg 940) (TileAnimation None 0)))))))) =
     [940, 945, 945, 945, 945]"
  by code_simp

text \<open>
  C5, amended: when \<^verbatim>\<open>goToTime\<close> is called with a valid time \<open>t\<close> while the timeline is empty,
  \<open>t\<close> becomes the current time, 'change:time' is triggered with \<open>t\<close>, no call is made on any
  frame, and one more one-time listener is left on the animation's 'load:times' event.
  When that event fires in a state whose timeline is empty or whose current time has a
  frame, every listener registered by then is removed and runs \<^verbatim>\<open>goToTime\<close> once with the
  current time of that moment, none throws, and a listener is registered again only if the
  timeline is still empty. So in the callback of the loader, which refreshes the current
  layer and then triggers the event, \<^verbatim>\<open>goToTime\<close> runs once for the refresh and once for every
  listener, each time with the current time: one more than the listeners that waited, and
  two more when no frame has come (the refresh then registers a listener as well).
\<close>

theorem goToTime_before_times_loaded:
  assumes "getTimes s = []"
    and "arg = NumericArg t \<or> arg = DateArg (Some t)"
  shows "goToTime e arg s =
      (None, s\<lparr>currentTime' := t, loadTimesOnce := Suc (loadTimesOnce s),
         calls := calls s @ [Trigger_change_time t]\<rparr>) \<and>
    (getTimes s2 = [] \<or> getCurrentLayer e1 s2 \<noteq> None \<longrightarrow>
       fst (trigger_load_times e1 s2) = None \<and>
       changeTimeEvents (calls (snd (trigger_load_times e1 s2))) =
         changeTimeEvents (calls s2) @ replicate (loadTimesOnce s2) (getCurrentTime s2) \<and>
       getCurrentTime (snd (trigger_load_times e1 s2)) = getCurrentTime s2 \<and>
       loadTimesOnce (snd (trigger_load_times e1 s2)) =
         (if getTimes s2 = [] then loadTimesOnce s2 else 0)) \<and>
    (timeLayers = [] \<or>
       getLayerForTime' e1 (setTimeLayers' timeLayers s2) (getCurrentTime s2) \<noteq> None \<longrightarrow>
       fst (onLoadTimes e1 timeLayers s2) = None \<and>
       changeTimeEvents (calls (snd (onLoadTimes e1 timeLayers s2))) =
         changeTimeEvents (calls s2) @
           replicate (if timeLayers = [] then loadTimesOnce s2 + 2 else loadTimesOnce s2 + 1)
             (getCurrentTime s2) \<and>
       getCurrentTime (snd (onLoadTimes e1 timeLayers s2)) = getCurrentTime s2 \<and>
       loadTimesOnce (snd (onLoadTimes e1 timeLayers s2)) =
         (if timeLayers = [] then Suc (loadTimesOnce s2) else 0))"
proof -
  have g: "goToTime e arg s =
      (None, s\<lparr>currentTime' := t, loadTimesOnce := Suc (loadTimesOnce s),
         calls := calls s @ [Trigger_change_time t]\<rparr>)"
    using assms
    by (auto simp: goToTime_date goToTime_unfold getTimes_def trigger_change_time_def)
  from g trigger_load_times_runs [of s2 e1] onLoadTimes_runs [of timeLayers e1 s2]
  show ?thesis by blast
qed

theorem goToTime_before_times_loaded_witness:
  "getTimes (TileAnimation None 0) = [] \<and>
   goToTime example_env (DateArg (Some 940)) (TileAnimation None 0) =
     (None, (TileAnimation None 0)\<lparr>currentTime' := 940, loadTimesOnce := 1,
        calls := [Trigger_change_time 940]\<rparr>) \<and>
   getLayerForTime' example_env (setTimeLayers' [(900, 1), (950, 2)]
       (snd (goToTime example_env (DateArg (Some 940)) (TileAnimation None 0)))) 940 = Some 2 \<and>
   fst (onLoadTimes example_env [(900, 1), (950, 2)]
     (snd (goToTime example_env (DateArg (Some 940)) (TileAnimation None 0)))) = None \<and>
   changeTimeEvents (calls (snd (onLoadTimes example_env [(900, 1), (950, 2)]
     (snd (goToTime example_env (DateArg (Some 940)) (TileAnimation None 0)))))) = [940, 940, 940] \<and>
   loadTimesOnce (snd (onLoadTimes example_env [(900, 1), (950, 2)]
     (snd (goToTime example_env (DateArg (Some 940)) (TileAnimation None 0))))) = 0"
proof -
  define s1 where "s1 = snd (goToTime example_env (DateArg (Some 940)) (TileAnimation None 0))"
  have h1: "getTimes (TileAnimation None 0) = []" by code_simp
  have h2: "DateArg (Some 940) = NumericArg 940 \<or> DateArg (Some 940) = DateArg (Some 940)" by simp
  have l: "getLayerForTime' example_env (setTimeLayers' [(900, 1), (950, 2)] s1) 940 = Some 2"
    unfolding s1_def by code_simp
  have e: "getCurrentTime s1 = 940" "loadTimesOnce s1 = 1" "changeTimeEvents (calls s1) = [940]"
    "calls (TileAnimation None 0) = []"
    unfolding s1_def by code_simp+
  have z: "loadTimesOnce (TileAnimation None 0) = 0" by code_simp
  note c = goToTime_before_times_loaded [OF h1 h2, of example_env s1 example_env "[(900, 1), (950, 2)]"]
  from c [THEN conjunct1] have g: "goToTime example_env (DateArg (Some 940)) (TileAnimation None 0) =
     (None, (TileAnimation None 0)\<lparr>currentTime' := 940, loadTimesOnce := 1,
        calls := [Trigger_change_time 940]\<rparr>)"
    by (simp add: e(4) z)
  from l have ok: "[(900, 1), (950, 2)] = ([] :: (int \<times> layer) list) \<or>
       getLayerForTime' example_env (setTimeLayers' [(900, 1), (950, 2)] s1) (getCurrentTime s1) \<noteq> None"
    by (simp add: e(1))
  from c [THEN conjunct2, THEN conjunct2, THEN mp, OF ok]
  have f: "fst (onLoadTimes example_env [(900, 1), (950, 2)] s1) = None"
    "changeTimeEvents (calls (snd (onLoadTimes example_env [(900, 1), (950, 2)] s1))) =
       changeTimeEvents (calls s1) @ replicate (loadTimesOnce s1 + 1) (getCurrentTime s1)"
    "loadTimesOnce (snd (onLoadTimes example_env [(900, 1), (950, 2)] s1)) = 0"
    by simp_all
  from f(2) have "changeTimeEvents (calls (snd (onLoadTimes example_env [(900, 1), (950, 2)] s1))) =
      [940, 940, 940]"
    by (simp add: e numeral_2_eq_2)
  with h1 g l f(1,3) show ?thesis
    unfolding s1_def by blast
qed

subsection \<open>C6: what a transition to a loaded frame does\<close>



subsection \<open>C7: an argument that is not a time\<close>

text \<open>
  C7: for an argument that is neither a Date nor numeric, \<^verbatim>\<open>goToTime\<close> throws an
  InvalidArgumentError and leaves the animation as it was: the current time, the calls made
  (no transition, no 'change:time') and the listeners are unchanged.
\<close>

theorem goToTime_invalid_argument:
  assumes "\<not> isDate arg" and "\<not> isNumeric arg"
  shows "goToTime e arg s = (Some InvalidArgumentError, s)"
  using assms by (cases arg) (simp_all add: goToTime_def)

theorem goToTime_invalid_argument_witness:
  "\<not> isDate OtherArg \<and> \<not> isNumeric OtherArg \<and>
   goToTime example_env OtherArg example_animation = (Some InvalidArgumentError, example_animation)"
proof -
  have h1: "\<not> isDate OtherArg" and h2: "\<not> isNumeric OtherArg" by simp_all
  from goToTime_invalid_argument [OF h1 h2] h1 h2 show ?thesis by simp
qed

section \<open>The claim about the URI serializer\<close>

subsection \<open>Encoding: every encoded space becomes a plus sign\<close>

lemma hexDigits_distinct: "distinct ''0123456789ABCDEF''"
  by simp

lemma hexDigit_not_percent: "d < 16 \<Longrightarrow> hexDigit d \<noteq> CHR ''%''"
proof -
  assume "d < 16"
  then have "hexDigit d \<in> set ''0123456789ABCDEF''"
    unfolding hexDigit_def by (intro nth_mem) simp
  then show ?thesis by auto
qed

lemma hexDigit_eq: "d < 16 \<Longrightarrow> k < 16 \<Longrightarrow> hexDigit d = hexDigit k \<longleftrightarrow> d = k"
  unfolding hexDigit_def using hexDigits_distinct
  by (intro nth_eq_iff_index_eq) simp_all

lemma hexDigit_2: "d < 16 \<Longrightarrow> hexDigit d = CHR ''2'' \<longleftrightarrow> d = 2"
  using hexDigit_eq [of d 2] by (simp add: hexDigit_def)

lemma hexDigit_0: "d < 16 \<Longrightarrow> hexDigit d = CHR ''0'' \<longleftrightarrow> d = 0"
  using hexDigit_eq [of d 0] by (simp add: hexDigit_def)

lemma unreserved_plain: "unreserved c \<Longrightarrow> c \<noteq> CHR ''%'' \<and> c \<noteq> CHR 0x20"
  by (auto simp: unreserved_def)

lemma replace20_plain: "c \<noteq> CHR ''%'' \<Longrightarrow> replace20 (c # xs) = c # replace20 xs"
proof (cases xs)
  case Nil
  then show ?thesis by simp
next
  case (Cons b ys)
  assume "c \<noteq> CHR ''%''"
  then show ?thesis using Cons by (cases ys) simp_all
qed

lemma replace20_escape:
  assumes "a \<noteq> CHR ''%''" and "b \<noteq> CHR ''%''"
  shows "replace20 (CHR ''%'' # a # b # xs) =
    (if a = CHR ''2'' \<and> b = CHR ''0'' then CHR ''+'' # replace20 xs
     else CHR ''%'' # a # b # replace20 xs)"
  using assms by (simp add: replace20_plain)

lemma char_32: "char_of (32 :: nat) = CHR 0x20" "(of_char (CHR 0x20) :: nat) = 32"
  by code_simp+

lemma char_code_32: "(of_char c :: nat) = 32 \<longleftrightarrow> c = CHR 0x20"
proof
  assume "(of_char c :: nat) = 32"
  then have "char_of (of_char c :: nat) = (char_of (32 :: nat) :: char)" by simp
  then show "c = CHR 0x20" by (simp add: char_32)
next
  assume "c = CHR 0x20"
  then show "(of_char c :: nat) = 32" by (simp add: char_32)
qed

lemma replace20_encodeChar:
  "replace20 (encodeChar c @ xs) = (if c = CHR 0x20 then ''+'' else encodeChar c) @ replace20 xs"
proof (cases "unreserved c")
  case True
  with unreserved_plain [OF True] show ?thesis
    by (simp add: encodeChar_def replace20_plain)
next
  case False
  define n where "n = (of_char c :: nat)"
  have n: "n < 256" by (simp add: n_def)
  then have hl: "n div 16 < 16" "n mod 16 < 16" by simp_all
  have sp: "(n div 16 = 2 \<and> n mod 16 = 0) \<longleftrightarrow> c = CHR 0x20"
  proof -
    have "(n div 16 = 2 \<and> n mod 16 = 0) \<longleftrightarrow> n = 32" by presburger
    then show ?thesis by (simp add: n_def char_code_32)
  qed
  have e: "encodeChar c = [CHR ''%'', hexDigit (n div 16), hexDigit (n mod 16)]"
    using False by (simp add: encodeChar_def n_def)
  show ?thesis
    unfolding e
    using replace20_escape [OF hexDigit_not_percent [OF hl(1)] hexDigit_not_percent [OF hl(2)], of xs]
      hexDigit_2 [OF hl(1)] hexDigit_0 [OF hl(2)] sp
    by auto
qed

lemma replace20_encodeURIComponent:
  "replace20 (encodeURIComponent s @ xs) = formEncode s @ replace20 xs"
proof (induction s)
  case Nil
  then show ?case by (simp add: encodeURIComponent_def formEncode_def)
next
  case (Cons c s)
  have "replace20 (encodeURIComponent (c # s) @ xs) =
    replace20 (encodeChar c @ (encodeURIComponent s @ xs))"
    by (simp add: encodeURIComponent_def)
  also have "\<dots> = (if c = CHR 0x20 then ''+'' else encodeChar c) @ replace20 (encodeURIComponent s @ xs)"
    by (rule replace20_encodeChar)
  also have "\<dots> = formEncode (c # s) @ replace20 xs"
    by (simp add: Cons.IH formEncode_def)
  finally show ?case .
qed

lemma replace20_add:
  "replace20 (add key v @ xs) = formEncode key @ ''='' @ formEncode (valueString v) @ replace20 xs"
proof -
  have "replace20 (add key v @ xs) =
    replace20 (encodeURIComponent key @ (CHR ''='' # (encodeURIComponent (valueString v) @ xs)))"
    by (simp add: add_def)
  also have "\<dots> = formEncode key @ replace20 (CHR ''='' # (encodeURIComponent (valueString v) @ xs))"
    by (rule replace20_encodeURIComponent)
  also have "\<dots> = formEncode key @ ''='' @ replace20 (encodeURIComponent (valueString v) @ xs)"
    by (simp add: replace20_plain)
  finally show ?thesis by (simp add: replace20_encodeURIComponent)
qed

lemma replace20_rest:
  "replace20 (concat (map (\<lambda>p. CHR ''&'' # add (fst p) (snd p)) ps)) =
   concat (map (\<lambda>p. CHR ''&'' # formEncode (fst p) @ CHR ''='' # formEncode (valueString (snd p))) ps)"
proof (induction ps)
  case Nil
  then show ?case by simp
next
  case (Cons p ps)
  have "replace20 (concat (map (\<lambda>p. CHR ''&'' # add (fst p) (snd p)) (p # ps))) =
    CHR ''&'' # replace20 (add (fst p) (snd p) @ concat (map (\<lambda>p. CHR ''&'' # add (fst p) (snd p)) ps))"
    by (simp add: replace20_plain)
  also have "\<dots> = CHR ''&'' # formEncode (fst p) @ ''='' @ formEncode (valueString (snd p)) @
      replace20 (concat (map (\<lambda>p. CHR ''&'' # add (fst p) (snd p)) ps))"
    by (simp only: replace20_add)
  finally show ?case by (simp add: Cons.IH)
qed

lemma serializeToURI_form:
  "serializeToURI params =
     join ''&'' (map (\<lambda>p. formEncode (fst p) @ ''='' @ formEncode (valueString (snd p)))
       (topLevel params))"
proof (cases "topLevel params")
  case Nil
  then show ?thesis by (simp add: serializeToURI_def join_def)
next
  case (Cons p ps)
  have "replace20 (add (fst p) (snd p) @ concat (map (\<lambda>p. CHR ''&'' # add (fst p) (snd p)) ps)) =
    formEncode (fst p) @ ''='' @ formEncode (valueString (snd p)) @
      replace20 (concat (map (\<lambda>p. CHR ''&'' # add (fst p) (snd p)) ps))"
    by (simp only: replace20_add)
  with Cons show ?thesis
    by (simp add: serializeToURI_def join_def comp_def replace20_rest)
qed


lemma buildParams_plain: "\<not> isObjectType v \<Longrightarrow> buildParams key v = [(key, v)]"
  by (cases v) simp_all

lemma buildObject_entries:
  "buildObject key entries =
     concat (map (\<lambda>p. buildParams (key @ ''['' @ fst p @ '']'') (snd p)) entries)"
  by (induction entries) auto

lemma buildArray_bracket_key:
  "rbracket key \<Longrightarrow> buildArray key i vs = map (\<lambda>v. (key, v)) vs"
  by (induction vs arbitrary: i) simp_all

lemma buildArray_elements:
  "\<not> rbracket key \<Longrightarrow>
   buildArray key i vs =
     concat (map (\<lambda>p. buildParams (key @ ''['' @ (if isObjectType (snd p) then showNat (fst p) else []) @ '']'')
        (snd p)) (zip [i..<i + length vs] vs))"
proof (induction vs arbitrary: i)
  case Nil
  then show ?case by simp
next
  case (Cons v vs)
  have "[i..<i + length (v # vs)] = i # [Suc i..<Suc i + length vs]"
    by (subst upt_rec) simp
  with Cons.IH [OF Cons.prems, of "Suc i"] Cons.prems show ?case by simp
qed

lemma buildArray_plain:
  "\<not> rbracket key \<Longrightarrow> list_all (\<lambda>v. \<not> isObjectType v) vs \<Longrightarrow>
   buildArray key i vs = map (\<lambda>v. (key @ ''[]'', v)) vs"
  by (induction vs arbitrary: i) (simp_all add: buildParams_plain)

lemma topLevel_entries:
  "topLevel params = concat (map (\<lambda>p. buildParams (fst p) (snd p)) params)"
  by (induction params) auto

lemma formEncode_append: "formEncode (a @ b) = formEncode a @ formEncode b"
  by (simp add: formEncode_def)

lemma formEncode_space: "formEncode [CHR 0x20] = ''+''"
  by (simp add: formEncode_def)

lemma topLevel_flat:
  "list_all (\<lambda>p. \<not> isObjectType (snd p)) params \<Longrightarrow> topLevel params = params"
  by (induction params) (auto simp: buildParams_plain)

subsection \<open>The vectors of the unit tests, one by one\<close>

lemma serialize_flat_object:
  "serializeToURI [(''foo'', JStr ''bar''), (''baz'', JNum 42),
      (''quux'', JStr ''All your base are belong to us'')]
     = ''foo=bar&baz=42&quux=All+your+base+are+belong+to+us''"
  by code_simp

lemma serialize_nulls_and_undefineds:
  "serializeToURI [(''string'', JStr ''foo''), (''null'', JNull), (''undefined'', JUndefined)]
     = ''string=foo&null=&undefined=''"
  by code_simp

lemma serialize_array_value:
  "serializeToURI [(''someName'', JArr [JNum 1, JNum 2, JNum 3]), (''regularThing'', JStr ''blah'')]
     = ''someName%5B%5D=1&someName%5B%5D=2&someName%5B%5D=3&regularThing=blah''"
  by code_simp

lemma serialize_array_of_strings:
  "serializeToURI [(''foo'', JArr [JStr ''a'', JStr ''b'', JStr ''c''])]
     = ''foo%5B%5D=a&foo%5B%5D=b&foo%5B%5D=c''"
  by code_simp

lemma serialize_array_encoded:
  "serializeToURI [(''foo'', JArr [JStr ''baz'', JNum 42, JStr ''All your base are belong to us''])]
     = ''foo%5B%5D=baz&foo%5B%5D=42&foo%5B%5D=All+your+base+are+belong+to+us''"
  by code_simp

lemma serialize_nested_object:
  "serializeToURI [(''foo'', JObj [(''bar'', JStr ''baz''), (''beep'', JNum 42),
      (''quux'', JStr ''All your base are belong to us'')])]
     = ''foo%5Bbar%5D=baz&foo%5Bbeep%5D=42&foo%5Bquux%5D=All+your+base+are+belong+to+us''"
  by code_simp

lemma serialize_deep_nested_objects:
  "decodeURIComponent (serializeToURI
      [(''a'', JArr [JNum 1, JNum 2]),
       (''b'', JObj [(''c'', JNum 3), (''d'', JArr [JNum 4, JNum 5]),
          (''e'', JObj [(''x'', JArr [JNum 6]), (''y'', JNum 7), (''z'', JArr [JNum 8, JNum 9])]),
          (''f'', JBool True), (''g'', JBool False), (''h'', JUndefined)]),
       (''i'', JArr [JNum 10, JNum 11]), (''j'', JBool True), (''k'', JBool False),
       (''l'', JArr [JUndefined, JNum 0]), (''m'', JStr ''cowboy hat?'')])
     = Some ''a[]=1&a[]=2&b[c]=3&b[d][]=4&b[d][]=5&b[e][x][]=6&b[e][y]=7&b[e][z][]=8&b[e][z][]=9&b[f]=true&b[g]=false&b[h]=&i[]=10&i[]=11&j=true&k=false&l[]=&l[]=0&m=cowboy+hat?''"
  by code_simp

lemma serialize_nested_arrays:
  "decodeURIComponent (serializeToURI
      [(''a'', JArr [JNum 0, JArr [JNum 1, JNum 2], JArr [JNum 3, JArr [JNum 4, JNum 5], JArr [JNum 6]],
         JObj [(''b'', JArr [JNum 7, JArr [JNum 8, JNum 9], JArr [JObj [(''c'', JNum 10), (''d'', JNum 11)]],
            JArr [JArr [JNum 12]], JArr [JArr [JArr [JNum 13]]],
            JObj [(''e'', JObj [(''f'', JObj [(''g'', JArr [JNum 14, JArr [JNum 15]])])])], JNum 16])],
         JNum 17])])
     = Some ''a[]=0&a[1][]=1&a[1][]=2&a[2][]=3&a[2][1][]=4&a[2][1][]=5&a[2][2][]=6&a[3][b][]=7&a[3][b][1][]=8&a[3][b][1][]=9&a[3][b][2][0][c]=10&a[3][b][2][0][d]=11&a[3][b][3][0][]=12&a[3][b][4][0][0][]=13&a[3][b][5][e][f][g][]=14&a[3][b][5][e][f][g][1][]=15&a[3][b][]=16&a[]=17''"
  by code_simp

lemma serialize_no_double_encoding:
  "decodeURIComponent (serializeToURI
      [(''a'', JArr [JNum 1, JNum 2, JNum 3]), (''b[]'', JArr [JNum 4, JNum 5, JNum 6]),
       (''c[d]'', JArr [JNum 7, JNum 8, JNum 9]),
       (''e'', JObj [(''f'', JArr [JNum 10]), (''g'', JArr [JNum 11, JNum 12]), (''h'', JNum 13)])])
     = Some ''a[]=1&a[]=2&a[]=3&b[]=4&b[]=5&b[]=6&c[d][]=7&c[d][]=8&c[d][]=9&e[f][]=10&e[g][]=11&e[g][]=12&e[h]=13''"
  by code_simp

subsection \<open>C9: serializeToURI\<close>

text \<open>
  C9: \<^verbatim>\<open>serializeToURI\<close> turns a parameter object into a query string. In general: the string
  is the \<open>key=value\<close> pairs of the calls of \<^verbatim>\<open>add\<close>, joined by \<open>&\<close>, key and value form-encoded
  (a space written \<open>+\<close>, null and undefined written as the empty string); for an object of
  plain values these are its own pairs, in order; a plain value under a key is one pair; an
  array of plain values under \<open>key\<close> is a pair \<open>key[]=element\<close> for each element; the entries
  of a nested object under \<open>key\<close> are serialized under \<open>key[name]\<close>; the elements of an array
  that are arrays or objects themselves under \<open>key[i]\<close>; and a key that ends in \<open>[]\<close> takes
  the elements of its array as they are. On each of the nine vectors of the unit tests
  (lines 8--51) it gives the expected string, the last three compared after
  \<^verbatim>\<open>decodeURIComponent\<close>, as the tests do.
\<close>

theorem serializeToURI_query_string:
  "serializeToURI params =
     join ''&'' (map (\<lambda>p. formEncode (fst p) @ ''='' @ formEncode (valueString (snd p)))
       (topLevel params)) \<and>
   topLevel params = concat (map (\<lambda>p. buildParams (fst p) (snd p)) params) \<and>
   (list_all (\<lambda>p. \<not> isObjectType (snd p)) params \<longrightarrow>
      serializeToURI params =
        join ''&'' (map (\<lambda>p. formEncode (fst p) @ ''='' @ formEncode (valueString (snd p))) params)) \<and>
   formEncode (a @ [CHR 0x20] @ b) = formEncode a @ ''+'' @ formEncode b \<and>
   valueString JNull = [] \<and> valueString JUndefined = [] \<and>
   (\<not> isObjectType v \<longrightarrow> buildParams key v = [(key, v)]) \<and>
   (\<not> rbracket key \<and> list_all (\<lambda>v. \<not> isObjectType v) vs \<longrightarrow>
      buildParams key (JArr vs) = map (\<lambda>v. (key @ ''[]'', v)) vs) \<and>
   buildParams key (JObj entries) =
     concat (map (\<lambda>p. buildParams (key @ ''['' @ fst p @ '']'') (snd p)) entries) \<and>
   (\<not> rbracket key \<longrightarrow>
      buildParams key (JArr vs) =
        concat (map (\<lambda>p. buildParams
            (key @ ''['' @ (if isObjectType (snd p) then showNat (fst p) else []) @ '']'') (snd p))
          (zip [0..<length vs] vs))) \<and>
   (rbracket key \<longrightarrow> buildParams key (JArr vs) = map (\<lambda>v. (key, v)) vs) \<and>
   serializeToURI [(''foo'', JStr ''bar''), (''baz'', JNum 42),
      (''quux'', JStr ''All your base are belong to us'')]
     = ''foo=bar&baz=42&quux=All+your+base+are+belong+to+us'' \<and>
   serializeToURI [(''string'', JStr ''foo''), (''null'', JNull), (''undefined'', JUndefined)]
     = ''string=foo&null=&undefined='' \<and>
   serializeToURI [(''someName'', JArr [JNum 1, JNum 2, JNum 3]), (''regularThing'', JStr ''blah'')]
     = ''someName%5B%5D=1&someName%5B%5D=2&someName%5B%5D=3&regularThing=blah'' \<and>
   serializeToURI [(''foo'', JArr [JStr ''a'', JStr ''b'', JStr ''c''])]
     = ''foo%5B%5D=a&foo%5B%5D=b&foo%5B%5D=c'' \<and>
   serializeToURI [(''foo'', JArr [JStr ''baz'', JNum 42, JStr ''All your base are belong to us''])]
     = ''foo%5B%5D=baz&foo%5B%5D=42&foo%5B%5D=All+your+base+are+belong+to+us'' \<and>
   serializeToURI [(''foo'', JObj [(''bar'', JStr ''baz''), (''beep'', JNum 42),
      (''quux'', JStr ''All your base are belong to us'')])]
     = ''foo%5Bbar%5D=baz&foo%5Bbeep%5D=42&foo%5Bquux%5D=All+your+base+are+belong+to+us'' \<and>
   decodeURIComponent (serializeToURI
      [(''a'', JArr [JNum 1, JNum 2]),
       (''b'', JObj [(''c'', JNum 3), (''d'', JArr [JNum 4, JNum 5]),
          (''e'', JObj [(''x'', JArr [JNum 6]), (''y'', JNum 7), (''z'', JArr [JNum 8, JNum 9])]),
          (''f'', JBool True), (''g'', JBool False), (''h'', JUndefined)]),
       (''i'', JArr [JNum 10, JNum 11]), (''j'', JBool True), (''k'', JBool False),
       (''l'', JArr [JUndefined, JNum 0]), (''m'', JStr ''cowboy hat?'')])
     = Some ''a[]=1&a[]=2&b[c]=3&b[d][]=4&b[d][]=5&b[e][x][]=6&b[e][y]=7&b[e][z][]=8&b[e][z][]=9&b[f]=true&b[g]=false&b[h]=&i[]=10&i[]=11&j=true&k=false&l[]=&l[]=0&m=cowboy+hat?'' \<and>
   decodeURIComponent (serializeToURI
      [(''a'', JArr [JNum 0, JArr [JNum 1, JNum 2], JArr [JNum 3, JArr [JNum 4, JNum 5], JArr [JNum 6]],
         JObj [(''b'', JArr [JNum 7, JArr [JNum 8, JNum 9], JArr [JObj [(''c'', JNum 10), (''d'', JNum 11)]],
            JArr [JArr [JNum 12]], JArr [JArr [JArr [JNum 13]]],
            JObj [(''e'', JObj [(''f'', JObj [(''g'', JArr [JNum 14, JArr [JNum 15]])])])], JNum 16])],
         JNum 17])])
     = Some ''a[]=0&a[1][]=1&a[1][]=2&a[2][]=3&a[2][1][]=4&a[2][1][]=5&a[2][2][]=6&a[3][b][]=7&a[3][b][1][]=8&a[3][b][1][]=9&a[3][b][2][0][c]=10&a[3][b][2][0][d]=11&a[3][b][3][0][]=12&a[3][b][4][0][0][]=13&a[3][b][5][e][f][g][]=14&a[3][b][5][e][f][g][1][]=15&a[3][b][]=16&a[]=17'' \<and>
   decodeURIComponent (serializeToURI
      [(''a'', JArr [JNum 1, JNum 2, JNum 3]), (''b[]'', JArr [JNum 4, JNum 5, JNum 6]),
       (''c[d]'', JArr [JNum 7, JNum 8, JNum 9]),
       (''e'', JObj [(''f'', JArr [JNum 10]), (''g'', JArr [JNum 11, JNum 12]), (''h'', JNum 13)])])
     = Some ''a[]=1&a[]=2&a[]=3&b[]=4&b[]=5&b[]=6&c[d][]=7&c[d][]=8&c[d][]=9&e[f][]=10&e[g][]=11&e[g][]=12&e[h]=13''"
proof -
  have flat: "list_all (\<lambda>p. \<not> isObjectType (snd p)) params \<longrightarrow>
      serializeToURI params =
        join ''&'' (map (\<lambda>p. formEncode (fst p) @ ''='' @ formEncode (valueString (snd p))) params)"
    using serializeToURI_form [of params] by (auto simp: topLevel_flat)
  have space: "formEncode (a @ [CHR 0x20] @ b) = formEncode a @ ''+'' @ formEncode b"
    by (simp add: formEncode_def)
  have nulls: "valueString JNull = []" "valueString JUndefined = []"
    by (simp_all add: valueString_def)
  have plain: "\<not> isObjectType v \<longrightarrow> buildParams key v = [(key, v)]"
    by (simp add: buildParams_plain)
  have arr: "\<not> rbracket key \<and> list_all (\<lambda>v. \<not> isObjectType v) vs \<longrightarrow>
      buildParams key (JArr vs) = map (\<lambda>v. (key @ ''[]'', v)) vs"
    using buildArray_plain [of key vs 0] by simp
  have obj: "buildParams key (JObj entries) =
     concat (map (\<lambda>p. buildParams (key @ ''['' @ fst p @ '']'') (snd p)) entries)"
    using buildObject_entries [of key entries] by simp
  have nested: "\<not> rbracket key \<longrightarrow>
      buildParams key (JArr vs) =
        concat (map (\<lambda>p. buildParams
            (key @ ''['' @ (if isObjectType (snd p) then showNat (fst p) else []) @ '']'') (snd p))
          (zip [0..<length vs] vs))"
    using buildArray_elements [of key 0 vs] by simp
  have br: "rbracket key \<longrightarrow> buildParams key (JArr vs) = map (\<lambda>v. (key, v)) vs"
    using buildArray_bracket_key [of key 0 vs] by simp
  show ?thesis
    by (intro conjI)
      (rule serializeToURI_form topLevel_entries flat space nulls plain arr obj nested br
        serialize_flat_object serialize_nulls_and_undefineds serialize_array_value serialize_array_of_strings
        serialize_array_encoded serialize_nested_object serialize_deep_nested_objects serialize_nested_arrays serialize_no_double_encoding)+
qed

theorem serializeToURI_query_string_witness:
  "list_all (\<lambda>p. \<not> isObjectType (snd p)) [(''q'', JStr ''a b''), (''n'', JNull), (''k'', JNum 7)] \<and>
   serializeToURI [(''q'', JStr ''a b''), (''n'', JNull), (''k'', JNum 7)] = ''q=a+b&n=&k=7'' \<and>
   \<not> rbracket ''ids'' \<and>
   buildParams ''ids'' (JArr [JNum 1, JStr ''x'']) = [(''ids[]'', JNum 1), (''ids[]'', JStr ''x'')]"
proof -
  have h1: "list_all (\<lambda>p. \<not> isObjectType (snd p)) [(''q'', JStr ''a b''), (''n'', JNull), (''k'', JNum 7)]"
    by simp
  have h2: "\<not> rbracket ''ids''" by (simp add: rbracket_def)
  have h3: "list_all (\<lambda>v. \<not> isObjectType v) [JNum 1, JStr ''x'']" by simp
  note t = serializeToURI_query_string [of "[(''q'', JStr ''a b''), (''n'', JNull), (''k'', JNum 7)]" "[]" "[]"
      JNull "''ids''" "[JNum 1, JStr ''x'']" "[]"]
  from t h1 have "serializeToURI [(''q'', JStr ''a b''), (''n'', JNull), (''k'', JNum 7)] =
     join ''&'' (map (\<lambda>p. formEncode (fst p) @ ''='' @ formEncode (valueString (snd p)))
       [(''q'', JStr ''a b''), (''n'', JNull), (''k'', JNum 7)])"
    by blast
  moreover have "join ''&'' (map (\<lambda>p. formEncode (fst p) @ ''='' @ formEncode (valueString (snd p)))
       [(''q'', JStr ''a b''), (''n'', JNull), (''k'', JNum 7)]) = ''q=a+b&n=&k=7''"
    by code_simp
  ultimately have a: "serializeToURI [(''q'', JStr ''a b''), (''n'', JNull), (''k'', JNum 7)] = ''q=a+b&n=&k=7''"
    by simp
  from t h2 h3 have b: "buildParams ''ids'' (JArr [JNum 1, JStr ''x'']) =
      map (\<lambda>v. (''ids'' @ ''[]'', v)) [JNum 1, JStr ''x'']"
    by blast
  from h1 a h2 b show ?thesis by simp
qed

section \<open>The claim about the GeoJSON collection\<close>

subsection \<open>A collection that keeps one model per id\<close>








subsection \<open>C10: from GeoJSON to the collection and back\<close>




end
